theory Spec2Isabelle
  imports Complex_Main "HOL-Library.Char_ord" "HOL-Library.List_Lexorder"
    "HOL-Library.Log_Nat" "HOL-Library.Multiset"
begin

section \<open>Strings and numbers\<close>

text \<open>
  Python strings are modelled as \<open>string\<close>, the bytes of their UTF-8 encoding; a text
  is ASCII when every byte is below \<open>0x80\<close>.  On an ASCII text \<open>str.upper()\<close>,
  \<open>str.lower()\<close> and \<open>int()\<close> are functions of the bytes, defined here.  On any other
  text \<open>str.upper()\<close> and \<open>int()\<close> follow the Unicode database (every cased letter has
  its capital, every decimal digit of every script is read), which is not part of the
  source: there the model takes their results from the environment (section
  \<open>The persistent store and the environment\<close>).
\<close>

definition ascii :: "string \<Rightarrow> bool" where
  "ascii s = list_all (\<lambda>c. c < CHR 0x80) s"

definition upper_char :: "char \<Rightarrow> char" where
  "upper_char c =
     (case map_of (zip ''abcdefghijklmnopqrstuvwxyz'' ''ABCDEFGHIJKLMNOPQRSTUVWXYZ'') c of
        Some u \<Rightarrow> u
      | None \<Rightarrow> c)"

definition upper_ascii :: "string \<Rightarrow> string" where
  "upper_ascii s = map upper_char s"

text \<open>
  \<open>str.lower()\<close> is only applied to the mode of \<open>autoupdate\<close>, which is then
  compared with \<open>"on"\<close> and \<open>"off"\<close>: no text with a character outside ASCII
  becomes one of the two, so the letters \<open>A\<close> to \<open>Z\<close> are all that matters.
\<close>

definition lower_char :: "char \<Rightarrow> char" where
  "lower_char c =
     (case map_of (zip ''ABCDEFGHIJKLMNOPQRSTUVWXYZ'' ''abcdefghijklmnopqrstuvwxyz'') c of
        Some l \<Rightarrow> l
      | None \<Rightarrow> c)"

definition lower :: "string \<Rightarrow> string" where
  "lower s = map lower_char s"

text \<open>\<open>s.split(sep)\<close> for a separator of one character: never the empty list.\<close>

fun split_on :: "char \<Rightarrow> string \<Rightarrow> string list" where
  "split_on sep [] = [[]]"
| "split_on sep (c # cs) =
     (if c = sep then [] # split_on sep cs
      else (case split_on sep cs of
              [] \<Rightarrow> [[c]]
            | p # ps \<Rightarrow> (c # p) # ps))"

definition digit_char :: "int \<Rightarrow> char" where
  "digit_char n = ''0123456789'' ! nat (n mod 10)"

definition digit_val :: "char \<Rightarrow> int option" where
  "digit_val c = map_of (zip ''0123456789'' [0, 1, 2, 3, 4, 5, 6, 7, 8, 9]) c"

text \<open>\<open>str(n)\<close> of an integer: decimal digits, a minus sign when negative.\<close>

function str_nat :: "int \<Rightarrow> string" where
  "str_nat n = (if n < 10 then [digit_char n] else str_nat (n div 10) @ [digit_char n])"
  by pat_completeness auto
termination
  by (relation "measure nat") auto

declare str_nat.simps [simp del]

definition str_int :: "int \<Rightarrow> string" where
  "str_int i = (if i < 0 then CHR ''-'' # str_nat (- i) else str_nat i)"

text \<open>
  \<open>int(s)\<close> in base 10 on an ASCII text: surrounding whitespace is stripped, a sign
  may come first, then digits, single underscores allowed between two digits.  \<open>None\<close>
  is the \<open>ValueError\<close>.  (The texts read are command arguments and job names, far
  shorter than the \<open>4300\<close> digits from which \<open>int()\<close> refuses a text.)
\<close>

definition is_space :: "char \<Rightarrow> bool" where
  "is_space c = (c \<in> set [CHR 0x20, CHR 0x09, CHR 0x0A, CHR 0x0B, CHR 0x0C, CHR 0x0D,
                           CHR 0x1C, CHR 0x1D, CHR 0x1E, CHR 0x1F])"

definition strip :: "string \<Rightarrow> string" where
  "strip s = rev (dropWhile is_space (rev (dropWhile is_space s)))"

fun int_rest :: "int \<Rightarrow> string \<Rightarrow> int option" where
  "int_rest acc [] = Some acc"
| "int_rest acc [c] = (case digit_val c of None \<Rightarrow> None | Some d \<Rightarrow> Some (acc * 10 + d))"
| "int_rest acc (c # c' # cs) =
     (if c = CHR ''_''
      then (case digit_val c' of None \<Rightarrow> None | Some d \<Rightarrow> int_rest (acc * 10 + d) cs)
      else (case digit_val c of None \<Rightarrow> None | Some d \<Rightarrow> int_rest (acc * 10 + d) (c' # cs)))"

definition py_nat :: "string \<Rightarrow> int option" where
  "py_nat s =
     (case s of
        [] \<Rightarrow> None
      | c # cs \<Rightarrow> (case digit_val c of None \<Rightarrow> None | Some d \<Rightarrow> int_rest d cs))"

definition int_ascii :: "string \<Rightarrow> int option" where
  "int_ascii s =
     (case strip s of
        [] \<Rightarrow> None
      | c # cs \<Rightarrow>
          if c = CHR ''-'' then map_option uminus (py_nat cs)
          else if c = CHR ''+'' then py_nat cs
          else py_nat (c # cs))"

text \<open>
  \<open>timedelta(minutes=m)\<close>, as the number of its seconds; it raises \<open>OverflowError\<close>
  (\<open>None\<close>) when the number of days leaves the range of \<open>timedelta\<close>,
  \<open>-999999999 .. 999999999\<close>.
\<close>

definition timedelta_minutes :: "int \<Rightarrow> int option" where
  "timedelta_minutes m = (if 999999999 < \<bar>m div 1440\<bar> then None else Some (m * 60))"

section \<open>Floating-point numbers\<close>

text \<open>
  A Python \<open>float\<close> is an IEEE 754 binary64 value: a finite number (here the rational
  it denotes; \<open>Finite 0\<close> is \<open>+0.0\<close>), the negative zero, an infinity or a NaN.
  \<open>to_double\<close> rounds an exact result to the nearest representable value, ties to the
  even significand: 53 bits of precision, the smallest exponent \<open>-1074\<close>, overflow to an
  infinity from \<open>2 ^ 1024\<close> on.
\<close>

datatype pyfloat = Finite rat | NegZero | PosInf | NegInf | NaN

definition round_half_even :: "rat \<Rightarrow> int" where
  "round_half_even x =
     (let f = \<lfloor>x\<rfloor>; d = x - of_int f
      in if d < 1 / 2 then f else if 1 / 2 < d then f + 1 else if even f then f else f + 1)"

text \<open>\<open>floor_log2 x\<close> is the \<open>k\<close> with \<open>2 ^ k \<le> x < 2 ^ (k + 1)\<close>, for a positive \<open>x\<close>.\<close>

definition floor_log2 :: "rat \<Rightarrow> int" where
  "floor_log2 x =
     (let (p, q) = quotient_of x; k = bitlen p - bitlen q
      in if 2 powi k \<le> x then k else k - 1)"

definition to_double :: "rat \<Rightarrow> pyfloat" where
  "to_double x =
     (if x = 0 then Finite 0
      else
        let e = max (floor_log2 \<bar>x\<bar> - 52) (- 1074);
            m = round_half_even (\<bar>x\<bar> / 2 powi e);
            y = of_int m * 2 powi e
        in if 2 powi 1024 \<le> y then (if 0 < x then PosInf else NegInf)
           else if m = 0 then (if 0 < x then Finite 0 else NegZero)
           else Finite (if 0 < x then y else - y))"

definition is_nan :: "pyfloat \<Rightarrow> bool" where
  "is_nan x = (x = NaN)"

definition is_inf :: "pyfloat \<Rightarrow> bool" where
  "is_inf x = (x = PosInf \<or> x = NegInf)"

text \<open>\<open>x == 0\<close>: both zeros are equal to the integer \<open>0\<close>.\<close>

definition is_zero :: "pyfloat \<Rightarrow> bool" where
  "is_zero x = (x = Finite 0 \<or> x = NegZero)"

definition sign_bit :: "pyfloat \<Rightarrow> bool" where
  "sign_bit x = (case x of Finite q \<Rightarrow> q < 0 | NegZero \<Rightarrow> True | NegInf \<Rightarrow> True | _ \<Rightarrow> False)"

definition rat_of :: "pyfloat \<Rightarrow> rat" where
  "rat_of x = (case x of Finite q \<Rightarrow> q | _ \<Rightarrow> 0)"

definition signed_zero :: "bool \<Rightarrow> pyfloat" where
  "signed_zero neg = (if neg then NegZero else Finite 0)"

definition signed_inf :: "bool \<Rightarrow> pyfloat" where
  "signed_inf neg = (if neg then NegInf else PosInf)"

text \<open>\<open>x - y\<close>.\<close>

definition fsub :: "pyfloat \<Rightarrow> pyfloat \<Rightarrow> pyfloat" where
  "fsub x y =
     (if is_nan x \<or> is_nan y then NaN
      else if is_inf x then (if x = y then NaN else x)
      else if is_inf y then signed_inf (\<not> sign_bit y)
      else if rat_of x - rat_of y = 0 then signed_zero (x = NegZero \<and> y = Finite 0)
      else to_double (rat_of x - rat_of y))"

text \<open>\<open>x * y\<close>.\<close>

definition fmul :: "pyfloat \<Rightarrow> pyfloat \<Rightarrow> pyfloat" where
  "fmul x y =
     (let neg = (sign_bit x \<noteq> sign_bit y)
      in if is_nan x \<or> is_nan y then NaN
         else if is_inf x \<or> is_inf y then (if is_zero x \<or> is_zero y then NaN else signed_inf neg)
         else if is_zero x \<or> is_zero y then signed_zero neg
         else to_double (rat_of x * rat_of y))"

text \<open>\<open>x / y\<close>: \<open>None\<close> is the \<open>ZeroDivisionError\<close> of a zero divisor.\<close>

definition fdiv :: "pyfloat \<Rightarrow> pyfloat \<Rightarrow> pyfloat option" where
  "fdiv x y =
     (let neg = (sign_bit x \<noteq> sign_bit y)
      in if is_zero y then None
         else if is_nan x \<or> is_nan y then Some NaN
         else if is_inf x then (if is_inf y then Some NaN else Some (signed_inf neg))
         else if is_inf y \<or> is_zero x then Some (signed_zero neg)
         else Some (to_double (rat_of x / rat_of y)))"

text \<open>\<open>x > 0\<close> and \<open>x < 0\<close>: false for a zero and for a NaN.\<close>

definition fpos :: "pyfloat \<Rightarrow> bool" where
  "fpos x = (case x of Finite q \<Rightarrow> 0 < q | PosInf \<Rightarrow> True | _ \<Rightarrow> False)"

definition fneg :: "pyfloat \<Rightarrow> bool" where
  "fneg x = (case x of Finite q \<Rightarrow> q < 0 | NegInf \<Rightarrow> True | _ \<Rightarrow> False)"

text \<open>
  \<open>format(x, ".2f")\<close> and \<open>format(x, ",.2f")\<close>: the exact value rounded to two decimals,
  ties to even, a minus sign for every negative value and for the negative zero; the
  comma groups the digits of the integer part in threes.
\<close>

fun group3_rev :: "string \<Rightarrow> string" where
  "group3_rev (a # b # c # d # ds) = a # b # c # CHR '','' # group3_rev (d # ds)"
| "group3_rev ds = ds"

definition group3 :: "string \<Rightarrow> string" where
  "group3 ds = rev (group3_rev (rev ds))"

definition format_2f :: "bool \<Rightarrow> pyfloat \<Rightarrow> string" where
  "format_2f comma x =
     (case x of
        NaN \<Rightarrow> ''nan''
      | PosInf \<Rightarrow> ''inf''
      | NegInf \<Rightarrow> ''-inf''
      | NegZero \<Rightarrow> ''-0.00''
      | Finite q \<Rightarrow>
          (let n = round_half_even (\<bar>q\<bar> * 100);
               ip = str_nat (n div 100)
           in (if q < 0 then [CHR ''-''] else []) @ (if comma then group3 ip else ip) @
              [CHR ''.'', digit_char (n div 10), digit_char n]))"

text \<open>The constant \<open>100.0\<close>.\<close>

definition hundred :: pyfloat where
  "hundred = Finite 100"
section \<open>The persistent store and the environment\<close>

type_synonym chat = int

text \<open>A \<open>datetime.time\<close> as the bot uses it: hour and minute.\<close>

type_synonym tod = "int \<times> int"

text \<open>
  Entries written with \<open>logger\<close>.  The wording of the fixed (Russian) messages is
  not reproduced; an entry names the message and carries its variable part.
\<close>

datatype log_entry =
    LogError string
  | LogWriteFailed string
  | LogBadResponse string
  | LogNoJobQueue
  | LogInfoLoaded

text \<open>
  The tables of the PostgreSQL database, in the order in which a query without
  \<open>ORDER BY\<close> returns their rows, and the environment of one run:
  \<^item> \<open>subscriptions\<close> has a unique index on \<open>(chat_id, symbol)\<close>, \<open>schedules\<close> and
    \<open>intervals\<close> one on \<open>chat_id\<close> (the \<open>ON CONFLICT\<close> targets of the inserts);
  \<^item> \<open>faults\<close> scripts the failures of the external calls to come: every database
    operation and every Telegram send takes the next entry, \<open>Some e\<close> making it raise an
    exception with text \<open>e\<close>; an exhausted script means no further failure;
  \<^item> the schema is not part of the source: \<open>time_in\<close> is the store's conversion of a
    text parameter to its \<open>TIME\<close> column (\<open>None\<close>: the store rejects the text),
    \<open>notify_time_not_null\<close> says whether that column refuses \<open>NULL\<close>, and
    \<open>minutes_in\<close> says which numbers the column \<open>interval_minutes\<close> holds;
  \<^item> \<open>unicode_upper\<close> and \<open>unicode_int\<close> are \<open>str.upper()\<close> and \<open>int()\<close> on a text
    that is not ASCII.
\<close>

record store =
  users :: "(chat \<times> string) list"
  subscriptions :: "(chat \<times> string) list"
  schedules :: "(chat \<times> tod option \<times> bool) list"
  intervals :: "(chat \<times> int \<times> bool) list"
  error_logs :: "(string \<times> chat option \<times> string) list"
  logger :: "log_entry list"
  faults :: "string option list"
  time_in :: "string \<Rightarrow> tod option"
  notify_time_not_null :: bool
  minutes_in :: "int \<Rightarrow> bool"
  unicode_upper :: "string \<Rightarrow> string"
  unicode_int :: "string \<Rightarrow> int option"

text \<open>\<open>s.upper()\<close> and \<open>int(s)\<close>.\<close>

definition upper :: "'a store_scheme \<Rightarrow> string \<Rightarrow> string" where
  "upper w s = (if ascii s then upper_ascii s else unicode_upper w s)"

definition py_int :: "'a store_scheme \<Rightarrow> string \<Rightarrow> int option" where
  "py_int w s = (if ascii s then int_ascii s else unicode_int w s)"

text \<open>
  \<open>hh, mm = map(int, t.split(":"))\<close>: exactly two fields, both integers; \<open>None\<close> is
  the \<open>ValueError\<close> of the unpacking or of \<open>int\<close>.
\<close>

definition parse_hh_mm :: "'a store_scheme \<Rightarrow> string \<Rightarrow> (int \<times> int) option" where
  "parse_hh_mm w t =
     (case split_on CHR '':'' t of
        [a, b] \<Rightarrow>
          (case py_int w a of
             None \<Rightarrow> None
           | Some hh \<Rightarrow> (case py_int w b of None \<Rightarrow> None | Some mm \<Rightarrow> Some (hh, mm)))
      | _ \<Rightarrow> None)"

definition external_call :: "'a store_scheme \<Rightarrow> string option \<times> 'a store_scheme" where
  "external_call w =
     (case faults w of
        [] \<Rightarrow> (None, w)
      | f # fs \<Rightarrow> (f, w\<lparr>faults := fs\<rparr>))"

text \<open>\<open>log_error_to_db\<close>: best effort; a failure of the insert is only logged.\<close>

definition log_error_to_db ::
  "string \<Rightarrow> chat option \<Rightarrow> string \<Rightarrow> 'a store_scheme \<Rightarrow> 'a store_scheme" where
  "log_error_to_db function_name chat_id error_message w =
     (case external_call w of
        (None, w1) \<Rightarrow>
          w1\<lparr>error_logs := error_logs w1 @ [(function_name, chat_id, error_message)]\<rparr>
      | (Some e, w1) \<Rightarrow> w1\<lparr>logger := logger w1 @ [LogWriteFailed e]\<rparr>)"

text \<open>
  The \<open>except Exception as e\<close> block shared by the store functions and the handlers:
  \<open>err = f"{name}: {e}"\<close>, \<open>logger.error(err)\<close>, \<open>log_error_to_db(name, chat_id, err)\<close>.
\<close>

definition log_failure ::
  "string \<Rightarrow> chat option \<Rightarrow> string \<Rightarrow> 'a store_scheme \<Rightarrow> 'a store_scheme" where
  "log_failure function_name chat_id err w =
     log_error_to_db function_name chat_id err (w\<lparr>logger := logger w @ [LogError err]\<rparr>)"

definition on_exception ::
  "string \<Rightarrow> chat option \<Rightarrow> string \<Rightarrow> 'a store_scheme \<Rightarrow> 'a store_scheme" where
  "on_exception function_name chat_id e w =
     log_failure function_name chat_id (function_name @ '': '' @ e) w"

subsection \<open>Subscriptions\<close>

definition add_user :: "chat \<Rightarrow> string \<Rightarrow> 'a store_scheme \<Rightarrow> 'a store_scheme" where
  "add_user chat_id chat_name w =
     (case external_call w of
        (Some e, w1) \<Rightarrow> on_exception ''add_user'' (Some chat_id) e w1
      | (None, w1) \<Rightarrow>
          (if chat_id \<in> fst ` set (users w1) then w1
           else w1\<lparr>users := users w1 @ [(chat_id, chat_name)]\<rparr>))"

definition add_subscription :: "chat \<Rightarrow> string \<Rightarrow> 'a store_scheme \<Rightarrow> bool \<times> 'a store_scheme" where
  "add_subscription chat_id symbol w =
     (case external_call w of
        (Some e, w1) \<Rightarrow> (False, on_exception ''add_subscription'' (Some chat_id) e w1)
      | (None, w1) \<Rightarrow>
          (let row = (chat_id, upper w symbol);
               changed = (if row \<in> set (subscriptions w1) then 0 else 1 :: nat);
               w2 = (if row \<in> set (subscriptions w1) then w1
                     else w1\<lparr>subscriptions := subscriptions w1 @ [row]\<rparr>)
           in (changed = 1, w2)))"

definition remove_subscription :: "chat \<Rightarrow> string \<Rightarrow> 'a store_scheme \<Rightarrow> bool \<times> 'a store_scheme" where
  "remove_subscription chat_id symbol w =
     (case external_call w of
        (Some e, w1) \<Rightarrow> (False, on_exception ''remove_subscription'' (Some chat_id) e w1)
      | (None, w1) \<Rightarrow>
          (let row = (chat_id, upper w symbol);
               changed = length (filter (\<lambda>r. r = row) (subscriptions w1));
               w2 = w1\<lparr>subscriptions := filter (\<lambda>r. r \<noteq> row) (subscriptions w1)\<rparr>
           in (changed = 1, w2)))"

definition clear_subscriptions :: "chat \<Rightarrow> 'a store_scheme \<Rightarrow> nat \<times> 'a store_scheme" where
  "clear_subscriptions chat_id w =
     (case external_call w of
        (Some e, w1) \<Rightarrow> (0, on_exception ''clear_subscriptions'' (Some chat_id) e w1)
      | (None, w1) \<Rightarrow>
          (let deleted = length (filter (\<lambda>r. fst r = chat_id) (subscriptions w1));
               w2 = w1\<lparr>subscriptions := filter (\<lambda>r. fst r \<noteq> chat_id) (subscriptions w1)\<rparr>
           in (deleted, w2)))"

text \<open>\<open>ORDER BY symbol\<close> is the order of the symbols as character strings.\<close>

definition list_subscriptions :: "chat \<Rightarrow> 'a store_scheme \<Rightarrow> string list \<times> 'a store_scheme" where
  "list_subscriptions chat_id w =
     (case external_call w of
        (Some e, w1) \<Rightarrow> ([], on_exception ''list_subscriptions'' (Some chat_id) e w1)
      | (None, w1) \<Rightarrow>
          (sort (map snd (filter (\<lambda>r. fst r = chat_id) (subscriptions w1))), w1))"

subsection \<open>Daily and interval schedules\<close>

text \<open>
  \<open>INSERT ... ON CONFLICT (chat_id) DO UPDATE\<close>: the row of the chat is replaced, or a
  new row is added.  Where the store keeps an updated row among the others is its own
  matter; the model leaves it in its place.
\<close>

definition upsert_row :: "chat \<Rightarrow> 'v \<Rightarrow> (chat \<times> 'v) list \<Rightarrow> (chat \<times> 'v) list" where
  "upsert_row k v rows =
     (if k \<in> fst ` set rows then map (\<lambda>r. if fst r = k then (k, v) else r) rows
      else rows @ [(k, v)])"

text \<open>
  The text of an exception that the store raises for a value it rejects, and of the
  \<open>AttributeError\<close> of \<open>None.strftime\<close>, is abstracted to the name of its class.
\<close>

definition NumericValueOutOfRange :: string where
  "NumericValueOutOfRange = ''NumericValueOutOfRange''"

definition NotNullViolation :: string where
  "NotNullViolation = ''NotNullViolation''"

definition InvalidDatetimeFormat :: string where
  "InvalidDatetimeFormat = ''InvalidDatetimeFormat''"

definition AttributeError :: string where
  "AttributeError = ''AttributeError''"

definition upsert_schedule ::
  "chat \<Rightarrow> string option \<Rightarrow> bool \<Rightarrow> 'a store_scheme \<Rightarrow> 'a store_scheme" where
  "upsert_schedule chat_id notify_time enabled w =
     (case external_call w of
        (Some e, w1) \<Rightarrow> on_exception ''upsert_schedule'' (Some chat_id) e w1
      | (None, w1) \<Rightarrow>
          (case notify_time of
             None \<Rightarrow>
               if notify_time_not_null w1
               then on_exception ''upsert_schedule'' (Some chat_id) NotNullViolation w1
               else w1\<lparr>schedules := upsert_row chat_id (None, enabled) (schedules w1)\<rparr>
           | Some t \<Rightarrow>
               (case time_in w1 t of
                  None \<Rightarrow> on_exception ''upsert_schedule'' (Some chat_id) InvalidDatetimeFormat w1
                | Some tm \<Rightarrow>
                    w1\<lparr>schedules := upsert_row chat_id (Some tm, enabled) (schedules w1)\<rparr>)))"

text \<open>\<open>time_obj.strftime("%H:%M")\<close>: hour and minute, two digits each.\<close>

definition strftime_HM :: "tod \<Rightarrow> string" where
  "strftime_HM tm =
     [digit_char (fst tm div 10), digit_char (fst tm), CHR '':'',
      digit_char (snd tm div 10), digit_char (snd tm)]"

definition get_schedule ::
  "chat \<Rightarrow> 'a store_scheme \<Rightarrow> (string option \<times> bool) \<times> 'a store_scheme" where
  "get_schedule chat_id w =
     (case external_call w of
        (Some e, w1) \<Rightarrow> ((None, False), on_exception ''get_schedule'' (Some chat_id) e w1)
      | (None, w1) \<Rightarrow>
          (case map_of (schedules w1) chat_id of
             None \<Rightarrow> ((None, False), w1)
           | Some (None, enabled) \<Rightarrow>
               ((None, False), on_exception ''get_schedule'' (Some chat_id) AttributeError w1)
           | Some (Some time_obj, enabled) \<Rightarrow> ((Some (strftime_HM time_obj), enabled), w1)))"

definition upsert_interval ::
  "chat \<Rightarrow> int option \<Rightarrow> bool \<Rightarrow> 'a store_scheme \<Rightarrow> 'a store_scheme" where
  "upsert_interval chat_id interval_minutes enabled w =
     (case external_call w of
        (Some e, w1) \<Rightarrow> on_exception ''upsert_interval'' (Some chat_id) e w1
      | (None, w1) \<Rightarrow>
          (case interval_minutes of
             None \<Rightarrow>
               w1\<lparr>intervals :=
                    map (\<lambda>r. if fst r = chat_id then (fst r, fst (snd r), enabled) else r)
                      (intervals w1)\<rparr>
           | Some m \<Rightarrow>
               if minutes_in w1 m
               then w1\<lparr>intervals := upsert_row chat_id (m, enabled) (intervals w1)\<rparr>
               else on_exception ''upsert_interval'' (Some chat_id) NumericValueOutOfRange w1))"

definition get_interval ::
  "chat \<Rightarrow> 'a store_scheme \<Rightarrow> (int option \<times> bool) \<times> 'a store_scheme" where
  "get_interval chat_id w =
     (case external_call w of
        (Some e, w1) \<Rightarrow> ((None, False), on_exception ''get_interval'' (Some chat_id) e w1)
      | (None, w1) \<Rightarrow>
          (case map_of (intervals w1) chat_id of
             None \<Rightarrow> ((None, False), w1)
           | Some (m, enabled) \<Rightarrow> ((Some m, enabled), w1)))"

section \<open>The job queue, the messaging gateway and the quote provider\<close>

text \<open>
  A job of the \<open>JobQueue\<close>: its name, the \<open>chat_id\<close> it was created with and its
  trigger; the callback of every job is \<open>send_rates\<close>.  \<open>run_daily\<close> gives a daily
  trigger at a time of day.  \<open>run_repeating\<close> gives \<open>Repeating interval first run\<close>: the
  interval in seconds, the argument \<open>first\<close> in seconds, and the first run that the
  scheduler has computed, in seconds after the call (\<open>None\<close> as long as the scheduler
  has not started: the job is pending).  The queue keeps its jobs in the order they were
  added; a job is identified by its position.
\<close>

datatype trigger = Daily tod | Repeating int int "int option"

record job =
  job_name :: string
  job_chat_id :: chat
  job_trigger :: trigger

text \<open>
  Outbound messages.  The reply of a command is named by its template and carries the
  values the template shows; a report is its text.
\<close>

datatype message =
    Welcome string
  | SubscribeUsage
  | Subscribed string
  | SubscribeFailed string
  | UnsubscribeUsage
  | Unsubscribed string
  | NotSubscribed string
  | UnsubscribedAll nat
  | NothingToUnsubscribe
  | Top20Unavailable
  | Top20Result "string list" "string list"
  | YourSubscriptions "string list"
  | NoSubscriptions
  | SubscribeFirst
  | RatesText string
  | SettimeUsage
  | TimeSet string
  | BadTimeFormat
  | AutoupdateUsage
  | SetTimeFirst
  | DailyEnabled string
  | DailyDisabled
  | BadAutoupdateMode
  | SetintervalUsage
  | IntervalEnabled int
  | BadInterval
  | IntervalAlreadyOff
  | IntervalDisabled

text \<open>
  What the quote provider answers for a symbol: a price, a reply whose \<open>error_code\<close> is
  not \<open>0\<close>, or a failure of the request or of the decoding (an exception).  The listing
  of the top 20 likewise.
\<close>

datatype provider_reply = Price pyfloat | ErrorCode | RequestFails string

datatype listing_reply = Listing "string list" | ListingErrorCode | ListingFails string

text \<open>
  The whole state of a run: the store, the job queue (\<open>None\<close> when the library was
  installed without it) and whether its scheduler is running, the messages sent so far,
  the provider's answers, the rate of a symbol 24 hours ago in the table
  \<open>currency_data\<close> (filled by another process), and the exceptions that left a
  handler or ended the process.  The time of a run is short: \<open>now_text\<close> is the current
  time as \<open>strftime("%Y-%m-%d %H:%M")\<close> prints it, \<open>clock\<close> is the same instant in
  microseconds since \<open>0001-01-01 00:00\<close>, and \<open>latency\<close> is the time, in
  microseconds, from the moment \<open>run_repeating\<close> reads the clock to the moment the
  scheduler reads it to compute the first run of the job.
\<close>

record world = store +
  job_queue :: "job list option"
  running :: bool
  outbox :: "(chat \<times> message) list"
  price_conversion :: "string \<Rightarrow> provider_reply"
  quotes_latest :: "string \<Rightarrow> provider_reply"
  listings_latest :: listing_reply
  currency_data :: "string \<Rightarrow> pyfloat option"
  now_text :: string
  clock :: int
  latency :: int
  escaped :: "string list"

text \<open>\<open>reply_text\<close> and \<open>send_message\<close>: an external call that may raise.\<close>

definition send_message :: "chat \<Rightarrow> message \<Rightarrow> world \<Rightarrow> string option \<times> world" where
  "send_message chat_id msg w =
     (case external_call w of
        (Some e, w1) \<Rightarrow> (Some e, w1)
      | (None, w1) \<Rightarrow> (None, w1\<lparr>outbox := outbox w1 @ [(chat_id, msg)]\<rparr>))"

subsection \<open>Quote provider client\<close>

definition fiat_list :: "string list" where
  "fiat_list = [''USD'', ''EUR'', ''RUB'', ''GBP'', ''JPY'', ''CNY'']"

text \<open>\<open>get_exchange_rate(symbol, 'USD')\<close>.\<close>

definition get_exchange_rate :: "string \<Rightarrow> world \<Rightarrow> pyfloat option \<times> world" where
  "get_exchange_rate symbol w =
     (let reply = (if upper w symbol \<in> set fiat_list then price_conversion w (upper w symbol)
                   else quotes_latest w (upper w symbol))
      in case reply of
           Price p \<Rightarrow> (Some p, w)
         | ErrorCode \<Rightarrow> (None, w\<lparr>logger := logger w @ [LogBadResponse (upper w symbol)]\<rparr>)
         | RequestFails e \<Rightarrow>
             (None, log_failure ''get_exchange_rate'' None
                      (''get_exchange_rate ('' @ symbol @ ''->USD): '' @ e) w))"

definition get_yesterday_rate :: "string \<Rightarrow> world \<Rightarrow> pyfloat option \<times> world" where
  "get_yesterday_rate symbol w =
     (case external_call w of
        (Some e, w1) \<Rightarrow> (None, on_exception ''get_yesterday_rate'' None e w1)
      | (None, w1) \<Rightarrow> (currency_data w1 (upper w symbol), w1))"

definition get_top20_symbols :: "world \<Rightarrow> string list \<times> world" where
  "get_top20_symbols w =
     (case listings_latest w of
        Listing syms \<Rightarrow>
          if syms \<noteq> [] then (syms, w)
          else ([], w\<lparr>logger := logger w @ [LogBadResponse ''top-20'']\<rparr>)
      | ListingErrorCode \<Rightarrow> ([], w\<lparr>logger := logger w @ [LogBadResponse ''top-20'']\<rparr>)
      | ListingFails e \<Rightarrow> ([], on_exception ''get_top20_symbols'' None e w))"

subsection \<open>Report lines\<close>

text \<open>\<open>SYMBOL_NAMES.get(symbol, (symbol, '$'))\<close>: the display name; the sign is always \<open>$\<close>.\<close>

definition SYMBOL_NAMES :: "(string \<times> string \<times> string) list" where
  "SYMBOL_NAMES =
     [(''USD'', [CHR 0xD0, CHR 0x94, CHR 0xD0, CHR 0xBE, CHR 0xD0, CHR 0xBB, CHR 0xD0, CHR 0xBB,
                 CHR 0xD0, CHR 0xB0, CHR 0xD1, CHR 0x80], ''$''),
      (''EUR'', [CHR 0xD0, CHR 0x95, CHR 0xD0, CHR 0xB2, CHR 0xD1, CHR 0x80, CHR 0xD0, CHR 0xBE],
                ''$''),
      (''RUB'', [CHR 0xD0, CHR 0xA0, CHR 0xD1, CHR 0x83, CHR 0xD0, CHR 0xB1, CHR 0xD0, CHR 0xBB,
                 CHR 0xD1, CHR 0x8C], ''$''),
      (''CNY'', [CHR 0xD0, CHR 0xAE, CHR 0xD0, CHR 0xB0, CHR 0xD0, CHR 0xBD, CHR 0xD1, CHR 0x8C],
                ''$''),
      (''BTC'', ''BTC'', ''$''),
      (''ETH'', ''ETH'', ''$''),
      (''XAU'', [CHR 0xD0, CHR 0x97, CHR 0xD0, CHR 0xBE, CHR 0xD0, CHR 0xBB, CHR 0xD0, CHR 0xBE,
                 CHR 0xD1, CHR 0x82, CHR 0xD0, CHR 0xBE], ''$''),
      (''BRENT'', ''Brent'', ''$''),
      (''MOEX'', [CHR 0xD0, CHR 0x9C, CHR 0xD0, CHR 0xBE, CHR 0xD1, CHR 0x81, CHR 0xD0, CHR 0xB1,
                  CHR 0xD0, CHR 0xB8, CHR 0xD1, CHR 0x80, CHR 0xD0, CHR 0xB6, CHR 0xD0, CHR 0xB0],
                 ''$''),
      (''RTS'', [CHR 0xD0, CHR 0xA0, CHR 0xD0, CHR 0xA2, CHR 0xD0, CHR 0xA1], ''$''),
      (''RGBI'', ''RGBI'', ''$'')]"

definition symbol_name :: "string \<Rightarrow> string \<times> string" where
  "symbol_name symbol = (case map_of SYMBOL_NAMES symbol of Some ns \<Rightarrow> ns | None \<Rightarrow> (symbol, ''$''))"

text \<open>The markers and fixed texts of a report, as UTF-8.\<close>

definition no_data_mark :: string where
  "no_data_mark = [CHR 0xE2, CHR 0x9D, CHR 0x93]"

definition no_data_text :: string where
  "no_data_text =
     [CHR 0x20, CHR 0xE2, CHR 0x80, CHR 0x94, CHR 0x20, CHR 0xD0, CHR 0xBD, CHR 0xD0, CHR 0xB5,
      CHR 0xD1, CHR 0x82, CHR 0x20, CHR 0xD1, CHR 0x82, CHR 0xD0, CHR 0xB5, CHR 0xD0, CHR 0xBA,
      CHR 0xD1, CHR 0x83, CHR 0xD1, CHR 0x89, CHR 0xD0, CHR 0xB8, CHR 0xD1, CHR 0x85, CHR 0x20,
      CHR 0xD0, CHR 0xB4, CHR 0xD0, CHR 0xB0, CHR 0xD0, CHR 0xBD, CHR 0xD0, CHR 0xBD, CHR 0xD1,
      CHR 0x8B, CHR 0xD1, CHR 0x85]"

definition up_mark :: string where
  "up_mark = [CHR 0xF0, CHR 0x9F, CHR 0x9F, CHR 0xA2]"

definition down_mark :: string where
  "down_mark = [CHR 0xF0, CHR 0x9F, CHR 0x94, CHR 0xBB]"

definition neutral_mark :: string where
  "neutral_mark = [CHR 0xE2, CHR 0x8F, CHR 0xBA]"

definition header_text :: string where
  "header_text =
     [CHR 0xD0, CHR 0x9A, CHR 0xD1, CHR 0x83, CHR 0xD1, CHR 0x80, CHR 0xD1, CHR 0x81, CHR 0xD1,
      CHR 0x8B, CHR 0x20, CHR 0xD0, CHR 0xBD, CHR 0xD0, CHR 0xB0, CHR 0x20]"

text \<open>
  The body of the loop over the subscriptions, in \<open>rates_cmd\<close> and in \<open>send_rates\<close>
  alike, once both rates are known.  \<open>None\<close> is an exception (the division by zero,
  which the test on \<open>yesterday\<close> excludes).
\<close>

definition percent_change :: "pyfloat \<Rightarrow> pyfloat \<Rightarrow> pyfloat option" where
  "percent_change current yesterday =
     map_option (\<lambda>r. fmul r hundred) (fdiv (fsub current yesterday) yesterday)"

definition trend_arrow :: "pyfloat \<Rightarrow> string" where
  "trend_arrow pct = (if fpos pct then up_mark else if fneg pct then down_mark else neutral_mark)"

definition percent_text :: "pyfloat \<Rightarrow> string" where
  "percent_text pct = (if fpos pct then ''+'' else []) @ format_2f False pct @ ''%''"

definition price_str :: "string \<Rightarrow> pyfloat \<Rightarrow> string" where
  "price_str sign current =
     map (\<lambda>c. if c = CHR '','' then CHR '' '' else c) (sign @ format_2f True current)"

definition change_of :: "pyfloat \<Rightarrow> pyfloat option \<Rightarrow> (string \<times> string) option" where
  "change_of current yesterday =
     (case yesterday of
        None \<Rightarrow> Some (neutral_mark, ''0.00%'')
      | Some y \<Rightarrow>
          if is_zero y then Some (neutral_mark, ''0.00%'')
          else (case percent_change current y of
                  None \<Rightarrow> None
                | Some pct \<Rightarrow> Some (trend_arrow pct, percent_text pct)))"

definition rate_line :: "string \<Rightarrow> pyfloat option \<Rightarrow> pyfloat option \<Rightarrow> string option" where
  "rate_line symbol current yesterday =
     (let (name, sign) = symbol_name symbol
      in case current of
           None \<Rightarrow> Some (no_data_mark @ name @ no_data_text)
         | Some cur \<Rightarrow>
             (case change_of cur yesterday of
                None \<Rightarrow> None
              | Some (arrow, pct_str) \<Rightarrow>
                  Some (arrow @ name @ '' '' @ pct_str @ ''  '' @ price_str sign cur)))"

text \<open>
  The loop: for every symbol the current rate, then the rate of yesterday, then the line.
  \<open>Inl\<close> carries the text of an exception that ends the loop.
\<close>

definition ZeroDivisionError :: string where
  "ZeroDivisionError = ''ZeroDivisionError''"

fun report_lines :: "string list \<Rightarrow> world \<Rightarrow> (string + string list) \<times> world" where
  "report_lines [] w = (Inr [], w)"
| "report_lines (symbol # symbols) w =
     (let (current, w1) = get_exchange_rate symbol w;
          (yesterday, w2) = get_yesterday_rate symbol w1
      in case rate_line symbol current yesterday of
           None \<Rightarrow> (Inl ZeroDivisionError, w2)
         | Some line \<Rightarrow>
             (case report_lines symbols w2 of
                (Inl e, w3) \<Rightarrow> (Inl e, w3)
              | (Inr lines, w3) \<Rightarrow> (Inr (line # lines), w3)))"

text \<open>\<open>"\n".join(lines)\<close>.\<close>

fun join_lines :: "string list \<Rightarrow> string" where
  "join_lines [] = []"
| "join_lines [l] = l"
| "join_lines (l # ls) = l @ [CHR 0x0A] @ join_lines ls"

definition report_text :: "string \<Rightarrow> string list \<Rightarrow> string" where
  "report_text now lines = header_text @ now @ '':'' @ [CHR 0x0A] @ join_lines lines"

section \<open>Command handlers\<close>

text \<open>
  A handler takes the chat of the update and \<open>context.args\<close>.  The text of an exception
  that Python raises is abstracted to the name of its class.
\<close>

definition ValueError :: string where
  "ValueError = ''ValueError''"

definition OverflowError :: string where
  "OverflowError = ''OverflowError''"

text \<open>
  A reply as the last statement of a \<open>try\<close> block whose \<open>except\<close> block only logs:
  a failure of the reply is caught and logged under the handler's name.
\<close>

definition reply_text :: "string \<Rightarrow> chat \<Rightarrow> message \<Rightarrow> world \<Rightarrow> world" where
  "reply_text handler chat_id msg w =
     (case send_message chat_id msg w of
        (None, w1) \<Rightarrow> w1
      | (Some e, w1) \<Rightarrow> on_exception handler (Some chat_id) e w1)"

definition start :: "chat \<Rightarrow> string \<Rightarrow> world \<Rightarrow> world" where
  "start chat_id chat_name w =
     reply_text ''start'' chat_id (Welcome chat_name) (add_user chat_id chat_name w)"

definition subscribe_cmd :: "chat \<Rightarrow> string list \<Rightarrow> world \<Rightarrow> world" where
  "subscribe_cmd chat_id args w =
     (case args of
        [] \<Rightarrow> reply_text ''subscribe_cmd'' chat_id SubscribeUsage w
      | a # _ \<Rightarrow>
          (let symbol = upper w a;
               (success, w1) = add_subscription chat_id symbol w
           in reply_text ''subscribe_cmd'' chat_id
                (if success then Subscribed symbol else SubscribeFailed symbol) w1))"

definition unsubscribe_cmd :: "chat \<Rightarrow> string list \<Rightarrow> world \<Rightarrow> world" where
  "unsubscribe_cmd chat_id args w =
     (case args of
        [] \<Rightarrow> reply_text ''unsubscribe_cmd'' chat_id UnsubscribeUsage w
      | a # _ \<Rightarrow>
          (let symbol = upper w a;
               (success, w1) = remove_subscription chat_id symbol w
           in reply_text ''unsubscribe_cmd'' chat_id
                (if success then Unsubscribed symbol else NotSubscribed symbol) w1))"

definition unsubscribe_all_cmd :: "chat \<Rightarrow> world \<Rightarrow> world" where
  "unsubscribe_all_cmd chat_id w =
     (let (deleted, w1) = clear_subscriptions chat_id w
      in reply_text ''unsubscribe_all_cmd'' chat_id
           (if 0 < deleted then UnsubscribedAll deleted else NothingToUnsubscribe) w1)"

text \<open>The loop of \<open>subscribe_top20_cmd\<close>: the symbols added and those not added.\<close>

fun subscribe_each ::
  "chat \<Rightarrow> string list \<Rightarrow> world \<Rightarrow> (string list \<times> string list) \<times> world" where
  "subscribe_each chat_id [] w = (([], []), w)"
| "subscribe_each chat_id (s # ss) w =
     (let (success, w1) = add_subscription chat_id s w;
          ((added, already), w2) = subscribe_each chat_id ss w1
      in if success then ((s # added, already), w2) else ((added, s # already), w2))"

definition subscribe_top20_cmd :: "chat \<Rightarrow> world \<Rightarrow> world" where
  "subscribe_top20_cmd chat_id w =
     (let (symbols, w1) = get_top20_symbols w
      in if symbols = [] then reply_text ''subscribe_top20_cmd'' chat_id Top20Unavailable w1
         else
           (let ((added, already), w2) = subscribe_each chat_id symbols w1
            in reply_text ''subscribe_top20_cmd'' chat_id (Top20Result added already) w2))"

definition list_cmd :: "chat \<Rightarrow> world \<Rightarrow> world" where
  "list_cmd chat_id w =
     (let (subs, w1) = list_subscriptions chat_id w
      in reply_text ''list_cmd'' chat_id
           (if subs \<noteq> [] then YourSubscriptions subs else NoSubscriptions) w1)"

definition rates_cmd :: "chat \<Rightarrow> world \<Rightarrow> world" where
  "rates_cmd chat_id w =
     (let (subs, w1) = list_subscriptions chat_id w
      in if subs = [] then reply_text ''rates_cmd'' chat_id SubscribeFirst w1
         else
           (case report_lines subs w1 of
              (Inl e, w2) \<Rightarrow> on_exception ''rates_cmd'' (Some chat_id) e w2
            | (Inr lines, w2) \<Rightarrow>
                reply_text ''rates_cmd'' chat_id (RatesText (report_text (now_text w) lines)) w2))"

text \<open>
  The \<open>except\<close> block of \<open>settime_cmd\<close> and \<open>setinterval_cmd\<close> also replies; an
  exception of that reply leaves the handler.
\<close>

definition except_reply :: "string \<Rightarrow> chat \<Rightarrow> message \<Rightarrow> string \<Rightarrow> world \<Rightarrow> world" where
  "except_reply handler chat_id msg e w =
     (case send_message chat_id msg (on_exception handler (Some chat_id) e w) of
        (None, w1) \<Rightarrow> w1
      | (Some e', w1) \<Rightarrow> w1\<lparr>escaped := escaped w1 @ [e']\<rparr>)"

definition settime_cmd :: "chat \<Rightarrow> string list \<Rightarrow> world \<Rightarrow> world" where
  "settime_cmd chat_id args w =
     (case args of
        [] \<Rightarrow>
          (case send_message chat_id SettimeUsage w of
             (None, w1) \<Rightarrow> w1
           | (Some e, w1) \<Rightarrow> except_reply ''settime_cmd'' chat_id BadTimeFormat e w1)
      | t # _ \<Rightarrow>
          (case parse_hh_mm w t of
             None \<Rightarrow> except_reply ''settime_cmd'' chat_id BadTimeFormat ValueError w
           | Some (hh, mm) \<Rightarrow>
               if \<not> (0 \<le> hh \<and> hh < 24 \<and> 0 \<le> mm \<and> mm < 60)
               then except_reply ''settime_cmd'' chat_id BadTimeFormat ValueError w
               else
                 (case send_message chat_id (TimeSet t) (upsert_schedule chat_id (Some t) False w) of
                    (None, w1) \<Rightarrow> w1
                  | (Some e, w1) \<Rightarrow> except_reply ''settime_cmd'' chat_id BadTimeFormat e w1)))"

text \<open>\<open>time(hour=hh, minute=mm)\<close>: \<open>None\<close> is the \<open>ValueError\<close> of a field out of range.\<close>

definition py_time :: "int \<Rightarrow> int \<Rightarrow> tod option" where
  "py_time hh mm = (if 0 \<le> hh \<and> hh < 24 \<and> 0 \<le> mm \<and> mm < 60 then Some (hh, mm) else None)"

text \<open>The job names \<open>f"daily_{chat_id}"\<close> and \<open>f"interval_{chat_id}"\<close>.\<close>

definition daily_name :: "chat \<Rightarrow> string" where
  "daily_name chat_id = ''daily_'' @ str_int chat_id"

definition interval_name :: "chat \<Rightarrow> string" where
  "interval_name chat_id = ''interval_'' @ str_int chat_id"

text \<open>
  \<open>run_daily\<close> adds a job to the queue;
  \<open>for job in get_jobs_by_name(name): job.schedule_removal()\<close> removes every job of
  that name.
\<close>

definition run_daily :: "tod \<Rightarrow> chat \<Rightarrow> string \<Rightarrow> job list \<Rightarrow> job list" where
  "run_daily t chat_id name jobs =
     jobs @ [\<lparr>job_name = name, job_chat_id = chat_id, job_trigger = Daily t\<rparr>]"

text \<open>
  \<open>run_repeating(send_rates, interval=..., first=..., chat_id=..., name=...)\<close> is
  library code.  It reads the clock and takes \<open>start = now + first\<close>; the interval
  trigger replaces an interval of \<open>0\<close> seconds by one second.  While the scheduler is
  not running the job is only kept (pending).  Once it runs, the scheduler reads the
  clock again and computes the first run: \<open>start\<close> if that is still to come, else
  \<open>start + interval * k\<close> for the least \<open>k\<close> that reaches the present; a date beyond the
  year \<open>9999\<close> (or before the year \<open>1\<close>) raises \<open>OverflowError\<close>.  So with
  \<open>first=0\<close> the first run is a whole interval after the call, unless no time at all
  has passed between the two readings of the clock.
\<close>

definition datetime_max :: int where
  "datetime_max = 315537897599999999"

definition interval_step :: "int \<Rightarrow> int" where
  "interval_step interval = (if interval = 0 then 1 else interval)"

definition first_run :: "world \<Rightarrow> int \<Rightarrow> int \<Rightarrow> int option" where
  "first_run w step first =
     (let waited = latency w - first * 1000000;
          k = (if waited < 0 then 0 else - ((- waited) div (step * 1000000)));
          run = first + step * k
      in if clock w + run * 1000000 < 0 \<or> datetime_max < clock w + run * 1000000 then None
         else Some run)"

definition run_repeating ::
  "world \<Rightarrow> int \<Rightarrow> int \<Rightarrow> chat \<Rightarrow> string \<Rightarrow> job list \<Rightarrow> job list option" where
  "run_repeating w interval first chat_id name jobs =
     (let step = interval_step interval
      in if running w then
           (case first_run w step first of
              None \<Rightarrow> None
            | Some run \<Rightarrow>
                Some (jobs @ [\<lparr>job_name = name, job_chat_id = chat_id,
                                job_trigger = Repeating step first (Some run)\<rparr>]))
         else
           Some (jobs @ [\<lparr>job_name = name, job_chat_id = chat_id,
                           job_trigger = Repeating step first None\<rparr>]))"

definition remove_jobs_by_name :: "string \<Rightarrow> job list \<Rightarrow> job list" where
  "remove_jobs_by_name name jobs = filter (\<lambda>j. job_name j \<noteq> name) jobs"

definition autoupdate_cmd :: "chat \<Rightarrow> string list \<Rightarrow> world \<Rightarrow> world" where
  "autoupdate_cmd chat_id args w =
     (case args of
        [] \<Rightarrow> reply_text ''autoupdate_cmd'' chat_id AutoupdateUsage w
      | a # _ \<Rightarrow>
          (let mode = lower a;
               ((notify_time_str, _), w1) = get_schedule chat_id w
           in case notify_time_str of
                None \<Rightarrow> reply_text ''autoupdate_cmd'' chat_id SetTimeFirst w1
              | Some ts \<Rightarrow>
                  if ts = [] then reply_text ''autoupdate_cmd'' chat_id SetTimeFirst w1
                  else
                    (case parse_hh_mm w ts of
                       None \<Rightarrow> on_exception ''autoupdate_cmd'' (Some chat_id) ValueError w1
                     | Some (hh, mm) \<Rightarrow>
                         (case py_time hh mm of
                            None \<Rightarrow> on_exception ''autoupdate_cmd'' (Some chat_id) ValueError w1
                          | Some notify_time_obj \<Rightarrow>
                              if mode = ''on'' then
                                (case send_message chat_id (DailyEnabled ts)
                                        (upsert_schedule chat_id (Some ts) True w1) of
                                   (Some e, w2) \<Rightarrow>
                                     on_exception ''autoupdate_cmd'' (Some chat_id) e w2
                                 | (None, w2) \<Rightarrow>
                                     (case job_queue w2 of
                                        Some jobs \<Rightarrow>
                                          w2\<lparr>job_queue :=
                                               Some (run_daily notify_time_obj chat_id
                                                       (daily_name chat_id) jobs)\<rparr>
                                      | None \<Rightarrow> w2\<lparr>logger := logger w2 @ [LogNoJobQueue]\<rparr>))
                              else if mode = ''off'' then
                                (case send_message chat_id DailyDisabled
                                        (upsert_schedule chat_id (Some ts) False w1) of
                                   (Some e, w2) \<Rightarrow>
                                     on_exception ''autoupdate_cmd'' (Some chat_id) e w2
                                 | (None, w2) \<Rightarrow>
                                     (case job_queue w2 of
                                        Some jobs \<Rightarrow>
                                          w2\<lparr>job_queue :=
                                               Some (remove_jobs_by_name (daily_name chat_id) jobs)\<rparr>
                                      | None \<Rightarrow> w2\<lparr>logger := logger w2 @ [LogNoJobQueue]\<rparr>))
                              else reply_text ''autoupdate_cmd'' chat_id BadAutoupdateMode w1))))"

definition setinterval_cmd :: "chat \<Rightarrow> string list \<Rightarrow> world \<Rightarrow> world" where
  "setinterval_cmd chat_id args w =
     (case args of
        [] \<Rightarrow>
          (case send_message chat_id SetintervalUsage w of
             (None, w1) \<Rightarrow> w1
           | (Some e, w1) \<Rightarrow> except_reply ''setinterval_cmd'' chat_id BadInterval e w1)
      | a # _ \<Rightarrow>
          (case py_int w a of
             None \<Rightarrow> except_reply ''setinterval_cmd'' chat_id BadInterval ValueError w
           | Some minutes \<Rightarrow>
               if minutes \<le> 0
               then except_reply ''setinterval_cmd'' chat_id BadInterval ValueError w
               else
                 (case send_message chat_id (IntervalEnabled minutes)
                         (upsert_interval chat_id (Some minutes) True w) of
                    (Some e, w1) \<Rightarrow> except_reply ''setinterval_cmd'' chat_id BadInterval e w1
                  | (None, w1) \<Rightarrow>
                      (case job_queue w1 of
                         None \<Rightarrow> w1\<lparr>logger := logger w1 @ [LogNoJobQueue]\<rparr>
                       | Some jobs \<Rightarrow>
                           (let w2 = w1\<lparr>job_queue :=
                                          Some (remove_jobs_by_name (interval_name chat_id) jobs)\<rparr>
                            in case timedelta_minutes minutes of
                                 None \<Rightarrow>
                                   except_reply ''setinterval_cmd'' chat_id BadInterval
                                     OverflowError w2
                               | Some interval \<Rightarrow>
                                   (case run_repeating w2 interval 0 chat_id
                                           (interval_name chat_id)
                                           (remove_jobs_by_name (interval_name chat_id) jobs) of
                                      None \<Rightarrow>
                                        except_reply ''setinterval_cmd'' chat_id BadInterval
                                          OverflowError w2
                                    | Some jobs' \<Rightarrow> w2\<lparr>job_queue := Some jobs'\<rparr>))))))"

definition clearinterval_cmd :: "chat \<Rightarrow> world \<Rightarrow> world" where
  "clearinterval_cmd chat_id w =
     (let ((_, enabled), w1) = get_interval chat_id w
      in if \<not> enabled then reply_text ''clearinterval_cmd'' chat_id IntervalAlreadyOff w1
         else
           (case send_message chat_id IntervalDisabled (upsert_interval chat_id None False w1) of
              (Some e, w2) \<Rightarrow> on_exception ''clearinterval_cmd'' (Some chat_id) e w2
            | (None, w2) \<Rightarrow>
                (case job_queue w2 of
                   Some jobs \<Rightarrow>
                     w2\<lparr>job_queue := Some (remove_jobs_by_name (interval_name chat_id) jobs)\<rparr>
                 | None \<Rightarrow> w2\<lparr>logger := logger w2 @ [LogNoJobQueue]\<rparr>)))"

section \<open>Scheduled delivery and start-up\<close>

text \<open>\<open>int(job.name.split("_")[-1])\<close>.\<close>

definition name_chat_id :: "'a store_scheme \<Rightarrow> string \<Rightarrow> chat option" where
  "name_chat_id w name = py_int w (last (split_on CHR ''_'' name))"

text \<open>\<open>job.schedule_removal()\<close> for the job at a position of the queue.\<close>

definition schedule_removal :: "nat \<Rightarrow> job list \<Rightarrow> job list" where
  "schedule_removal i jobs = take i jobs @ drop (Suc i) jobs"

text \<open>
  \<open>send_rates\<close>, run for the job at position \<open>i\<close> of the queue (nothing runs when
  there is no such job).
\<close>

definition send_rates :: "nat \<Rightarrow> world \<Rightarrow> world" where
  "send_rates i w =
     (case job_queue w of
        None \<Rightarrow> w
      | Some jobs \<Rightarrow>
          if length jobs \<le> i then w
          else
            (case name_chat_id w (job_name (jobs ! i)) of
               None \<Rightarrow> on_exception ''send_rates'' None ValueError w
             | Some chat_id \<Rightarrow>
                 (let (subs, w1) = list_subscriptions chat_id w
                  in if subs = [] then
                       (let ((notify_time_str, _), w2) = get_schedule chat_id w1;
                            w3 = upsert_schedule chat_id notify_time_str False w2;
                            w4 = upsert_interval chat_id None False w3
                        in w4\<lparr>job_queue := Some (schedule_removal i jobs)\<rparr>)
                     else
                       (case report_lines subs w1 of
                          (Inl e, w2) \<Rightarrow> on_exception ''send_rates'' (Some chat_id) e w2
                        | (Inr lines, w2) \<Rightarrow>
                            (case send_message chat_id
                                    (RatesText (report_text (now_text w) lines)) w2 of
                               (None, w3) \<Rightarrow> w3
                             | (Some e, w3) \<Rightarrow>
                                 on_exception ''send_rates'' (Some chat_id) e w3)))))"

text \<open>
  The two loops of \<open>on_startup\<close> over the rows read from the store.  \<open>Inl\<close> carries the
  text of an exception that ends the loop: \<open>run_daily\<close> raises on a \<open>NULL\<close> time,
  \<open>timedelta\<close> on an interval out of its range, \<open>run_repeating\<close> as described.
  Without a job queue every row is only logged.
\<close>

fun restore_daily :: "(chat \<times> tod option) list \<Rightarrow> world \<Rightarrow> (string \<times> world) + world" where
  "restore_daily [] w = Inr w"
| "restore_daily ((chat_id, notify_time_obj) # rows) w =
     (case job_queue w of
        None \<Rightarrow> restore_daily rows (w\<lparr>logger := logger w @ [LogNoJobQueue]\<rparr>)
      | Some jobs \<Rightarrow>
          (case notify_time_obj of
             None \<Rightarrow> Inl (AttributeError, w)
           | Some t \<Rightarrow>
               restore_daily rows
                 (w\<lparr>job_queue := Some (run_daily t chat_id (daily_name chat_id) jobs)\<rparr>)))"

fun restore_intervals :: "(chat \<times> int) list \<Rightarrow> world \<Rightarrow> (string \<times> world) + world" where
  "restore_intervals [] w = Inr w"
| "restore_intervals ((chat_id, interval_minutes) # rows) w =
     (case job_queue w of
        None \<Rightarrow> restore_intervals rows (w\<lparr>logger := logger w @ [LogNoJobQueue]\<rparr>)
      | Some jobs \<Rightarrow>
          (case timedelta_minutes interval_minutes of
             None \<Rightarrow> Inl (OverflowError, w)
           | Some interval \<Rightarrow>
               (case run_repeating w interval 0 chat_id (interval_name chat_id) jobs of
                  None \<Rightarrow> Inl (OverflowError, w)
                | Some jobs' \<Rightarrow> restore_intervals rows (w\<lparr>job_queue := Some jobs'\<rparr>))))"

text \<open>
  \<open>on_startup\<close>: one connection, the query of the enabled daily schedules and its
  loop, then the query of the enabled intervals and its loop.  Each query is an external
  call that may fail; an exception anywhere ends the function in its \<open>except\<close> block.
\<close>

definition on_startup :: "world \<Rightarrow> world" where
  "on_startup w =
     (case external_call w of
        (Some e, w1) \<Rightarrow> on_exception ''on_startup'' None e w1
      | (None, w1) \<Rightarrow>
          (let rows = map (\<lambda>r. (fst r, fst (snd r))) (filter (\<lambda>r. snd (snd r)) (schedules w1))
           in case restore_daily rows w1 of
                Inl (e, w2) \<Rightarrow> on_exception ''on_startup'' None e w2
              | Inr w2 \<Rightarrow>
                  (case external_call w2 of
                     (Some e, w3) \<Rightarrow> on_exception ''on_startup'' None e w3
                   | (None, w3) \<Rightarrow>
                       (let rows_i = map (\<lambda>r. (fst r, fst (snd r)))
                                       (filter (\<lambda>r. snd (snd r)) (intervals w3))
                        in case restore_intervals rows_i w3 of
                             Inl (e, w4) \<Rightarrow> on_exception ''on_startup'' None e w4
                           | Inr w4 \<Rightarrow> w4\<lparr>logger := logger w4 @ [LogInfoLoaded]\<rparr>))))"

text \<open>
  What happens after start-up: a command of a chat reaches its handler, or the job at a
  position of the queue fires.
\<close>

datatype event =
    StartCmd chat string
  | SubscribeCmd chat "string list"
  | UnsubscribeCmd chat "string list"
  | UnsubscribeAllCmd chat
  | SubscribeTop20Cmd chat
  | ListCmd chat
  | RatesCmd chat
  | SettimeCmd chat "string list"
  | AutoupdateCmd chat "string list"
  | SetintervalCmd chat "string list"
  | ClearintervalCmd chat
  | Fire nat

fun dispatch :: "event \<Rightarrow> world \<Rightarrow> world" where
  "dispatch (StartCmd c n) w = start c n w"
| "dispatch (SubscribeCmd c args) w = subscribe_cmd c args w"
| "dispatch (UnsubscribeCmd c args) w = unsubscribe_cmd c args w"
| "dispatch (UnsubscribeAllCmd c) w = unsubscribe_all_cmd c w"
| "dispatch (SubscribeTop20Cmd c) w = subscribe_top20_cmd c w"
| "dispatch (ListCmd c) w = list_cmd c w"
| "dispatch (RatesCmd c) w = rates_cmd c w"
| "dispatch (SettimeCmd c args) w = settime_cmd c args w"
| "dispatch (AutoupdateCmd c args) w = autoupdate_cmd c args w"
| "dispatch (SetintervalCmd c args) w = setinterval_cmd c args w"
| "dispatch (ClearintervalCmd c) w = clearinterval_cmd c w"
| "dispatch (Fire i) w = send_rates i w"

text \<open>
  \<open>app.run_polling()\<close> starts the job queue before it dispatches the first update.  The
  scheduler then schedules its pending jobs, computing the first run of each; an
  exception there ends \<open>run_polling\<close>, and with it the process.
\<close>

fun schedule_pending :: "world \<Rightarrow> job list \<Rightarrow> job list option" where
  "schedule_pending w [] = Some []"
| "schedule_pending w (j # js) =
     (case job_trigger j of
        Repeating step first None \<Rightarrow>
          (case first_run w step first of
             None \<Rightarrow> None
           | Some run \<Rightarrow>
               map_option ((#) (j\<lparr>job_trigger := Repeating step first (Some run)\<rparr>))
                 (schedule_pending w js))
      | _ \<Rightarrow> map_option ((#) j) (schedule_pending w js))"

definition start_job_queue :: "world \<Rightarrow> world option" where
  "start_job_queue w =
     (case job_queue w of
        None \<Rightarrow> Some w
      | Some jobs \<Rightarrow>
          (case schedule_pending w jobs of
             None \<Rightarrow> None
           | Some jobs' \<Rightarrow> Some (w\<lparr>job_queue := Some jobs', running := True\<rparr>)))"

text \<open>
  \<open>main\<close>: \<open>on_startup\<close>, then \<open>run_polling\<close>, which starts the job queue and
  dispatches what comes.
\<close>

definition main :: "event list \<Rightarrow> world \<Rightarrow> world" where
  "main events w =
     (let w1 = on_startup w
      in case start_job_queue w1 of
           None \<Rightarrow> w1\<lparr>escaped := escaped w1 @ [OverflowError]\<rparr>
         | Some w2 \<Rightarrow> fold dispatch events w2)"

section \<open>Runs and example states\<close>

text \<open>
  \<open>next_call_ok\<close>: the next external call does not fail; \<open>fault_free\<close>: none of the
  external calls to come fails.
\<close>

definition next_call_ok :: "'a store_scheme \<Rightarrow> bool" where
  "next_call_ok w = (case faults w of [] \<Rightarrow> True | f # _ \<Rightarrow> f = None)"

definition fault_free :: "'a store_scheme \<Rightarrow> bool" where
  "fault_free w = (set (faults w) \<subseteq> {None})"

text \<open>A sequence of \<open>add_subscription\<close> calls of one chat, one per symbol.\<close>

definition add_all :: "chat \<Rightarrow> string list \<Rightarrow> 'a store_scheme \<Rightarrow> 'a store_scheme" where
  "add_all chat_id symbols w = fold (\<lambda>s w'. snd (add_subscription chat_id s w')) symbols w"

text \<open>The symbols a chat is subscribed to, in row order.\<close>

definition chat_symbols :: "chat \<Rightarrow> 'a store_scheme \<Rightarrow> string list" where
  "chat_symbols chat_id w = map snd (filter (\<lambda>r. fst r = chat_id) (subscriptions w))"

text \<open>
  An example store and an example state before the process starts: no rows, no jobs, no
  failures to come, the scheduler not yet running.  The store reads a text of one or two
  digits, a colon and two digits as that time of day when it is one, and rejects every
  other text; its column \<open>interval_minutes\<close> is a 32-bit integer.  It is
  \<open>2025-01-01 09:00\<close>, and the scheduler reads the clock a millisecond after
  \<open>run_repeating\<close>.  The examples use ASCII texts only: on any other text the example
  environment stands for no real table, it leaves the text as it is and reads no number
  in it.
\<close>

definition digits_in :: "string \<Rightarrow> int option" where
  "digits_in s =
     (if s \<noteq> [] \<and> length s \<le> 2 \<and> list_all (\<lambda>c. digit_val c \<noteq> None) s then int_ascii s
      else None)"

definition time_of_text :: "string \<Rightarrow> tod option" where
  "time_of_text t =
     (case split_on CHR '':'' t of
        [a, b] \<Rightarrow>
          (case digits_in a of
             None \<Rightarrow> None
           | Some hh \<Rightarrow>
               (case digits_in b of
                  None \<Rightarrow> None
                | Some mm \<Rightarrow> if length b = 2 then py_time hh mm else None))
      | _ \<Rightarrow> None)"

definition int4 :: "int \<Rightarrow> bool" where
  "int4 m = (- 2147483648 \<le> m \<and> m \<le> 2147483647)"

definition empty_store :: store where
  "empty_store =
     \<lparr>users = [], subscriptions = [], schedules = [], intervals = [], error_logs = [],
      logger = [], faults = [], time_in = time_of_text, notify_time_not_null = True,
      minutes_in = int4, unicode_upper = (\<lambda>s. s), unicode_int = (\<lambda>s. None)\<rparr>"

definition empty_world :: world where
  "empty_world =
     \<lparr>users = [], subscriptions = [], schedules = [], intervals = [], error_logs = [],
      logger = [], faults = [], time_in = time_of_text, notify_time_not_null = True,
      minutes_in = int4, unicode_upper = (\<lambda>s. s), unicode_int = (\<lambda>s. None),
      job_queue = Some [], running = False, outbox = [], price_conversion = (\<lambda>_. ErrorCode),
      quotes_latest = (\<lambda>_. ErrorCode), listings_latest = ListingErrorCode,
      currency_data = (\<lambda>_. None), now_text = ''2025-01-01 09:00'',
      clock = 63871318800000000, latency = 1000, escaped = []\<rparr>"

text \<open>Decimal digits and the value of a digit string, for the facts about \<open>int\<close>.\<close>

definition is_digit :: "char \<Rightarrow> bool" where
  "is_digit c = (digit_val c \<noteq> None)"

definition digits_value :: "int \<Rightarrow> string \<Rightarrow> int" where
  "digits_value acc ds = foldl (\<lambda>a c. a * 10 + the (digit_val c)) acc ds"

text \<open>
  The timers the bot arms for a chat: the daily one at a time of day, the interval one
  for a number of minutes, with the first run that the scheduler computes in the state
  \<open>w\<close>.
\<close>

definition daily_timer :: "chat \<Rightarrow> tod \<Rightarrow> job" where
  "daily_timer c t = \<lparr>job_name = daily_name c, job_chat_id = c, job_trigger = Daily t\<rparr>"

definition interval_timer :: "world \<Rightarrow> chat \<Rightarrow> int \<Rightarrow> job" where
  "interval_timer w c m =
     \<lparr>job_name = interval_name c, job_chat_id = c,
      job_trigger = Repeating (m * 60) 0 (first_run w (m * 60) 0)\<rparr>"

text \<open>The interval timer of a chat as long as the scheduler has not started.\<close>

definition pending_timer :: "chat \<Rightarrow> int \<Rightarrow> job" where
  "pending_timer c m =
     \<lparr>job_name = interval_name c, job_chat_id = c, job_trigger = Repeating (m * 60) 0 None\<rparr>"

text \<open>A chat has an enabled daily (interval) schedule in the store.\<close>

definition daily_enabled :: "chat \<Rightarrow> 'a store_scheme \<Rightarrow> bool" where
  "daily_enabled c w = (\<exists>r\<in>set (schedules w). fst r = c \<and> snd (snd r))"

definition interval_enabled :: "chat \<Rightarrow> 'a store_scheme \<Rightarrow> bool" where
  "interval_enabled c w = (\<exists>r\<in>set (intervals w). fst r = c \<and> snd (snd r))"

text \<open>
  The timers that the persisted schedules call for: a daily timer for every enabled row
  of \<open>schedules\<close>, at its time, and an interval timer for every enabled row of
  \<open>intervals\<close>, with its minutes.
\<close>

definition rehydrated_timers :: "world \<Rightarrow> job list" where
  "rehydrated_timers w =
     map (\<lambda>r. daily_timer (fst r) (the (fst (snd r)))) (filter (\<lambda>r. snd (snd r)) (schedules w)) @
     map (\<lambda>r. interval_timer w (fst r) (fst (snd r))) (filter (\<lambda>r. snd (snd r)) (intervals w))"

text \<open>
  Every enabled row can be armed: an enabled daily schedule has a time, an enabled
  interval is a positive number of minutes whose first run is a date that exists.
\<close>

definition armable :: "world \<Rightarrow> bool" where
  "armable w =
     ((\<forall>r\<in>set (schedules w). snd (snd r) \<longrightarrow> fst (snd r) \<noteq> None) \<and>
      (\<forall>r\<in>set (intervals w). snd (snd r) \<longrightarrow>
          0 < fst (snd r) \<and> fst (snd r) < 1440000000000 \<and>
          first_run w (fst (snd r) * 60) 0 \<noteq> None))"

text \<open>
  \<open>only_logged w w'\<close>: the state \<open>w'\<close> differs from \<open>w\<close> at most in the logger, the
  table \<open>error_logs\<close> and the script of failures.
\<close>

definition only_logged :: "world \<Rightarrow> world \<Rightarrow> bool" where
  "only_logged w w' =
     (users w' = users w \<and> subscriptions w' = subscriptions w \<and> schedules w' = schedules w \<and>
      intervals w' = intervals w \<and> time_in w' = time_in w \<and>
      notify_time_not_null w' = notify_time_not_null w \<and> minutes_in w' = minutes_in w \<and>
      unicode_upper w' = unicode_upper w \<and> unicode_int w' = unicode_int w \<and>
      job_queue w' = job_queue w \<and> running w' = running w \<and> clock w' = clock w \<and>
      latency w' = latency w \<and>
      outbox w' = outbox w \<and> price_conversion w' = price_conversion w \<and>
      quotes_latest w' = quotes_latest w \<and> listings_latest w' = listings_latest w \<and>
      currency_data w' = currency_data w \<and> now_text w' = now_text w \<and> escaped w' = escaped w)"

text \<open>
  The line of a report for a symbol, from the provider's answer and the rate of yesterday
  in the state \<open>w\<close>.
\<close>

definition line_of :: "world \<Rightarrow> string \<Rightarrow> string" where
  "line_of w s = the (rate_line s (fst (get_exchange_rate s w)) (currency_data w (upper w s)))"

text \<open>
  The store takes back the daily schedule of a chat as \<open>get_schedule\<close> returns it: the
  \<open>TIME\<close> column accepts the text \<open>HH:MM\<close> of the stored time, and a row without
  a time is only there when the column allows \<open>NULL\<close>.
\<close>

definition schedule_rewritable :: "chat \<Rightarrow> 'a store_scheme \<Rightarrow> bool" where
  "schedule_rewritable c w =
     (case map_of (schedules w) c of
        None \<Rightarrow> True
      | Some (None, _) \<Rightarrow> \<not> notify_time_not_null w
      | Some (Some t, _) \<Rightarrow> time_in w (strftime_HM t) \<noteq> None)"

text \<open>The one event that enables the daily schedule of a chat: its \<open>autoupdate on\<close>.\<close>

definition enables_daily :: "chat \<Rightarrow> event \<Rightarrow> bool" where
  "enables_daily c ev =
     (case ev of AutoupdateCmd c' (a # _) \<Rightarrow> c' = c \<and> lower a = ''on'' | _ \<Rightarrow> False)"

text \<open>
  The scenario of the specification: a chat subscribes to two symbols, sets its daily time,
  enables the daily notifications and then clears its subscriptions.  And a chat with one
  subscription and an enabled daily schedule, the provider quoting \<open>110\<close> where the rate
  of yesterday is \<open>100\<close>.
\<close>

definition cleared_chat_world :: world where
  "cleared_chat_world =
     main [SubscribeCmd 5 [''BTC''], SubscribeCmd 5 [''USD''], SettimeCmd 5 [''09:00''],
           AutoupdateCmd 5 [''on''], UnsubscribeAllCmd 5] empty_world"

definition subscribed_chat_world :: world where
  "subscribed_chat_world =
     main [SubscribeCmd 5 [''BTC''], SettimeCmd 5 [''09:00''], AutoupdateCmd 5 [''on'']]
       (empty_world\<lparr>quotes_latest := (\<lambda>_. Price (Finite 110)),
                     currency_data := (\<lambda>_. Some (Finite 100))\<rparr>)"

text \<open>
  The first scenario again, with the third storage access to come failing: when the timer
  fires, that is the update of the daily schedule.
\<close>

definition failing_cleanup_world :: world where
  "failing_cleanup_world = cleared_chat_world\<lparr>faults := [None, None, Some ''connection lost'']\<rparr>"

text \<open>
  A chat with a subscription that sets a time, enables the daily notifications and then
  sets another time.
\<close>

definition retimed_chat_world :: world where
  "retimed_chat_world =
     main [SubscribeCmd 1 [''BTC''], SettimeCmd 1 [''09:00''], AutoupdateCmd 1 [''on''],
           SettimeCmd 1 [''10:00'']]
       (empty_world\<lparr>quotes_latest := (\<lambda>_. Price (Finite 110)),
                     currency_data := (\<lambda>_. Some (Finite 100))\<rparr>)"

section \<open>Facts about the store\<close>

lemma external_call_ok:
  "next_call_ok w \<Longrightarrow> external_call w = (None, w\<lparr>faults := tl (faults w)\<rparr>)"
  by (cases "faults w") (auto simp: next_call_ok_def external_call_def)

lemma external_call_fails:
  "faults w = Some e # fs \<Longrightarrow> external_call w = (Some e, w\<lparr>faults := fs\<rparr>)"
  by (simp add: external_call_def)

lemma fault_free_next: "fault_free w \<Longrightarrow> next_call_ok w"
  by (cases "faults w") (auto simp: fault_free_def next_call_ok_def)

lemma fault_free_tl: "fault_free w \<Longrightarrow> fault_free (w\<lparr>faults := tl (faults w)\<rparr>)"
  by (cases "faults w") (auto simp: fault_free_def)

lemma external_call_fault_free:
  "fault_free w \<Longrightarrow> external_call w = (None, w\<lparr>faults := tl (faults w)\<rparr>)"
  by (simp add: external_call_ok fault_free_next)

lemma on_exception_tables:
  "users (on_exception f c e w) = users w"
  "subscriptions (on_exception f c e w) = subscriptions w"
  "schedules (on_exception f c e w) = schedules w"
  "intervals (on_exception f c e w) = intervals w"
  by (auto simp: on_exception_def log_failure_def log_error_to_db_def external_call_def
      split: list.splits option.splits)

lemma on_exception_logged:
  "LogError (f @ '': '' @ e) \<in> set (logger (on_exception f c e w))"
  "(case faults w of
      Some e' # _ \<Rightarrow>
        error_logs (on_exception f c e w) = error_logs w \<and>
        LogWriteFailed e' \<in> set (logger (on_exception f c e w))
    | _ \<Rightarrow> error_logs (on_exception f c e w) = error_logs w @ [(f, c, f @ '': '' @ e)])"
  by (auto simp: on_exception_def log_failure_def log_error_to_db_def external_call_def
      split: list.splits option.splits)

lemma upper_cong: "unicode_upper w' = unicode_upper w \<Longrightarrow> upper w' s = upper w s"
  by (simp add: upper_def)

lemma unicode_upper_on_exception [simp]:
  "unicode_upper (on_exception f c e w) = unicode_upper w"
  by (auto simp: on_exception_def log_failure_def log_error_to_db_def external_call_def
      split: list.splits option.splits)

lemma unicode_upper_add_subscription [simp]:
  "unicode_upper (snd (add_subscription c s w)) = unicode_upper w"
  by (auto simp: add_subscription_def external_call_def Let_def split: list.splits option.splits)

lemma upper_add_subscription [simp]: "upper (snd (add_subscription c s w)) s' = upper w s'"
  by (rule upper_cong) simp

lemma add_subscription_fault_free:
  assumes "fault_free w"
  shows "fault_free (snd (add_subscription c s w))"
    and "subscriptions (snd (add_subscription c s w)) =
           (if (c, upper w s) \<in> set (subscriptions w) then subscriptions w
            else subscriptions w @ [(c, upper w s)])"
  using assms fault_free_tl[OF assms]
  by (auto simp: add_subscription_def external_call_fault_free Let_def fault_free_def)

lemma chat_symbols_add:
  assumes "fault_free w" "distinct (chat_symbols c w)"
  shows "distinct (chat_symbols c (snd (add_subscription c s w)))"
    and "set (chat_symbols c (snd (add_subscription c s w))) =
           insert (upper w s) (set (chat_symbols c w))"
  using assms
  by (auto simp: chat_symbols_def add_subscription_fault_free(2) image_iff)

lemma chat_symbols_add_all:
  "fault_free w \<Longrightarrow> distinct (chat_symbols c w) \<Longrightarrow>
     fault_free (add_all c symbols w) \<and> distinct (chat_symbols c (add_all c symbols w)) \<and>
     set (chat_symbols c (add_all c symbols w)) = set (chat_symbols c w) \<union> upper w ` set symbols"
proof (induction symbols arbitrary: w)
  case Nil
  then show ?case by (simp add: add_all_def)
next
  case (Cons s symbols)
  let ?w1 = "snd (add_subscription c s w)"
  have ff: "fault_free ?w1"
    using Cons.prems(1) by (rule add_subscription_fault_free(1))
  have d: "distinct (chat_symbols c ?w1)"
    using Cons.prems by (rule chat_symbols_add(1))
  have s: "set (chat_symbols c ?w1) = insert (upper w s) (set (chat_symbols c w))"
    using Cons.prems by (rule chat_symbols_add(2))
  have step: "add_all c (s # symbols) w = add_all c symbols ?w1"
    by (simp add: add_all_def)
  have u: "upper ?w1 = upper w"
    by (rule ext) simp
  from Cons.IH[OF ff d] s show ?case
    unfolding step u by auto
qed

lemma list_subscriptions_fault_free:
  "fault_free w \<Longrightarrow> fst (list_subscriptions c w) = sort (chat_symbols c w)"
  by (simp add: list_subscriptions_def external_call_fault_free chat_symbols_def)

lemma sort_cong_mset: "mset xs = mset ys \<Longrightarrow> sort xs = sort (ys :: string list)"
  by (metis mset_sort properties_for_sort sorted_sort)

lemma count_row_distinct:
  "distinct xs \<Longrightarrow> length (filter (\<lambda>r. r = x) xs) = (if x \<in> set xs then 1 else 0)"
  by (induction xs) auto

lemma filter_other_rows: "x \<notin> set xs \<Longrightarrow> filter (\<lambda>r. r \<noteq> x) xs = xs"
  by (induction xs) auto

section \<open>Job names: the chat id survives the round trip through the name\<close>

lemma digit_val_digit_char: "digit_val (digit_char n) = Some (n mod 10)"
proof -
  have "0 \<le> n mod 10" "n mod 10 < 10" by simp_all
  then have "n mod 10 = 0 \<or> n mod 10 = 1 \<or> n mod 10 = 2 \<or> n mod 10 = 3 \<or> n mod 10 = 4 \<or>
    n mod 10 = 5 \<or> n mod 10 = 6 \<or> n mod 10 = 7 \<or> n mod 10 = 8 \<or> n mod 10 = 9"
    by arith
  then show ?thesis
    by (auto simp: digit_char_def digit_val_def)
qed

lemma is_digit_digit_char: "is_digit (digit_char n)"
  by (simp add: is_digit_def digit_val_digit_char)

lemma is_digit_not_special:
  "is_digit c \<Longrightarrow> c \<noteq> CHR ''_'' \<and> c \<noteq> CHR ''-'' \<and> c \<noteq> CHR ''+'' \<and> \<not> is_space c"
  by (auto simp: is_digit_def digit_val_def is_space_def split: if_splits)

lemma int_rest_digits:
  "\<forall>c\<in>set ds. is_digit c \<Longrightarrow> int_rest acc ds = Some (digits_value acc ds)"
proof (induction acc ds rule: int_rest.induct)
  case (1 acc)
  then show ?case by (simp add: digits_value_def)
next
  case (2 acc c)
  then show ?case by (auto simp: digits_value_def is_digit_def)
next
  case (3 acc c c' cs)
  from "3.prems" have c: "is_digit c" "is_digit c'" "\<forall>x\<in>set cs. is_digit x" by auto
  from c(1) have nu: "c \<noteq> CHR ''_''" by (simp add: is_digit_not_special)
  from c(1) obtain d where d: "digit_val c = Some d" by (auto simp: is_digit_def)
  from "3.IH"(2)[OF nu d] c have "int_rest (acc * 10 + d) (c' # cs) = Some (digits_value (acc * 10 + d) (c' # cs))"
    by simp
  with nu d show ?case by (simp add: digits_value_def)
qed

lemma str_nat_digits:
  "0 \<le> n \<Longrightarrow> (\<forall>c\<in>set (str_nat n). is_digit c) \<and> str_nat n \<noteq> [] \<and> digits_value 0 (str_nat n) = n"
proof (induction n rule: str_nat.induct)
  case (1 n)
  show ?case
  proof (cases "n < 10")
    case True
    with "1.prems" show ?thesis
      by (subst (1 2 3) str_nat.simps) (simp add: is_digit_digit_char digits_value_def digit_val_digit_char)
  next
    case False
    with "1.prems" "1.IH" have ih: "\<forall>c\<in>set (str_nat (n div 10)). is_digit c"
      "digits_value 0 (str_nat (n div 10)) = n div 10" by auto
    have "str_nat n = str_nat (n div 10) @ [digit_char n]"
      using False by (subst str_nat.simps) simp
    with ih show ?thesis
      by (simp add: is_digit_digit_char digits_value_def digit_val_digit_char)
  qed
qed

lemma py_nat_str_nat: "0 \<le> n \<Longrightarrow> py_nat (str_nat n) = Some n"
proof -
  assume n: "0 \<le> n"
  from str_nat_digits[OF n] obtain c cs where s: "str_nat n = c # cs" "is_digit c" "\<forall>x\<in>set cs. is_digit x"
    "digits_value 0 (c # cs) = n"
    by (cases "str_nat n") auto
  from s(2) obtain d where d: "digit_val c = Some d" by (auto simp: is_digit_def)
  have "int_rest d cs = Some (digits_value d cs)" using s(3) by (rule int_rest_digits)
  moreover have "digits_value d cs = digits_value 0 (c # cs)" using d by (simp add: digits_value_def)
  ultimately show ?thesis using s(1,4) d by (simp add: py_nat_def)
qed

lemma strip_id: "s \<noteq> [] \<Longrightarrow> \<not> is_space (hd s) \<Longrightarrow> \<not> is_space (last s) \<Longrightarrow> strip s = s"
proof -
  assume a: "s \<noteq> []" "\<not> is_space (hd s)" "\<not> is_space (last s)"
  then have 1: "dropWhile is_space s = s" by (cases s) auto
  from a have "rev s \<noteq> []" "\<not> is_space (hd (rev s))" by (simp_all add: hd_rev)
  then have 2: "dropWhile is_space (rev s) = rev s" by (cases "rev s") auto
  show ?thesis by (simp add: strip_def 1 2)
qed

lemma str_int_chars:
  "str_int i \<noteq> []" "\<not> is_space (hd (str_int i))" "\<not> is_space (last (str_int i))"
  "CHR ''_'' \<notin> set (str_int i)"
proof -
  have pos: "str_nat n \<noteq> [] \<and> (\<forall>c\<in>set (str_nat n). is_digit c)" if "0 \<le> n" for n
    using str_nat_digits[OF that] by blast
  have ends: "hd xs \<in> set xs \<and> last xs \<in> set xs" if "xs \<noteq> []" for xs :: string
    using that by simp
  have all: "str_int i \<noteq> [] \<and> \<not> is_space (hd (str_int i)) \<and> \<not> is_space (last (str_int i)) \<and>
      CHR ''_'' \<notin> set (str_int i)"
  proof (cases "i < 0")
    case True
    then have p: "str_nat (- i) \<noteq> []" "\<forall>c\<in>set (str_nat (- i)). is_digit c"
      using pos[of "- i"] by auto
    from ends[OF p(1)] p(2) have "\<not> is_space (last (str_nat (- i)))"
      using is_digit_not_special by blast
    moreover have "CHR ''_'' \<notin> set (str_nat (- i))"
      using p(2) is_digit_not_special by blast
    ultimately show ?thesis
      using True p(1) by (simp add: str_int_def is_space_def)
  next
    case False
    then have p: "str_nat i \<noteq> []" "\<forall>c\<in>set (str_nat i). is_digit c"
      using pos[of i] by auto
    from ends[OF p(1)] p(2) have "\<not> is_space (last (str_nat i))" "\<not> is_space (hd (str_nat i))"
      using is_digit_not_special by blast+
    moreover have "CHR ''_'' \<notin> set (str_nat i)"
      using p(2) is_digit_not_special by blast
    ultimately show ?thesis
      using False p(1) by (simp add: str_int_def)
  qed
  from all show "str_int i \<noteq> []" "\<not> is_space (hd (str_int i))"
    "\<not> is_space (last (str_int i))" "CHR ''_'' \<notin> set (str_int i)"
    by simp_all
qed

lemma int_ascii_str_int: "int_ascii (str_int i) = Some i"
proof (cases "i < 0")
  case True
  then have "py_nat (str_nat (- i)) = Some (- i)" by (simp add: py_nat_str_nat)
  with True show ?thesis
    by (simp add: int_ascii_def strip_id str_int_chars) (simp add: str_int_def)
next
  case False
  then have n: "0 \<le> i" by simp
  from str_nat_digits[OF n] obtain c cs where s: "str_nat i = c # cs" "is_digit c"
    by (cases "str_nat i") auto
  from s(2) have "c \<noteq> CHR ''-''" "c \<noteq> CHR ''+''" by (simp_all add: is_digit_not_special)
  with False s py_nat_str_nat[OF n] show ?thesis
    by (simp add: int_ascii_def strip_id str_int_chars) (simp add: str_int_def)
qed

lemma is_digit_ascii: "is_digit c \<Longrightarrow> c < CHR 0x80"
  by (auto simp: is_digit_def digit_val_def less_char_def split: if_splits)

lemma ascii_str_int: "ascii (str_int i)"
proof -
  have pos: "\<forall>c\<in>set (str_nat n). c < CHR 0x80" if "0 \<le> n" for n
    using str_nat_digits[OF that] is_digit_ascii by blast
  show ?thesis
    using pos[of i] pos[of "- i"]
    by (auto simp: ascii_def str_int_def list_all_iff less_char_def)
qed

lemma py_int_str_int: "py_int w (str_int i) = Some i"
  by (simp add: py_int_def ascii_str_int int_ascii_str_int)

lemma split_on_no_sep: "sep \<notin> set ys \<Longrightarrow> split_on sep ys = [ys]"
  by (induction ys) auto

lemma split_on_not_Nil: "split_on sep xs \<noteq> []"
  by (induction xs) (auto split: list.splits)

lemma length_split_on: "length (split_on sep xs) = Suc (length (filter (\<lambda>c. c = sep) xs))"
  by (induction xs) (auto split: list.splits)

lemma last_split_on: "sep \<notin> set ys \<Longrightarrow> last (split_on sep (xs @ sep # ys)) = ys"
proof (induction xs)
  case Nil
  then show ?case by (simp add: split_on_no_sep)
next
  case (Cons x xs)
  have "2 \<le> length (split_on sep (xs @ sep # ys))"
    by (simp add: length_split_on)
  then obtain p q qs where "split_on sep (xs @ sep # ys) = p # q # qs"
    by (cases "split_on sep (xs @ sep # ys)"; cases "tl (split_on sep (xs @ sep # ys))") auto
  with Cons show ?case
    by auto
qed

lemma name_chat_id_daily: "name_chat_id w (daily_name c) = Some c"
  using last_split_on[of "CHR ''_''" "str_int c" "''daily''"]
  by (simp add: name_chat_id_def daily_name_def str_int_chars py_int_str_int)

lemma name_chat_id_interval: "name_chat_id w (interval_name c) = Some c"
  using last_split_on[of "CHR ''_''" "str_int c" "''interval''"]
  by (simp add: name_chat_id_def interval_name_def str_int_chars py_int_str_int)

lemma interval_name_inj: "interval_name c = interval_name c' \<longleftrightarrow> c = c'"
proof
  assume e: "interval_name c = interval_name c'"
  have "Some c = name_chat_id empty_store (interval_name c)"
    by (simp add: name_chat_id_interval)
  also have "\<dots> = Some c'"
    unfolding e by (simp add: name_chat_id_interval)
  finally show "c = c'"
    by simp
qed simp

lemma daily_name_inj: "daily_name c = daily_name c' \<longleftrightarrow> c = c'"
proof
  assume e: "daily_name c = daily_name c'"
  have "Some c = name_chat_id empty_store (daily_name c)"
    by (simp add: name_chat_id_daily)
  also have "\<dots> = Some c'"
    unfolding e by (simp add: name_chat_id_daily)
  finally show "c = c'"
    by simp
qed simp

lemma daily_not_interval: "daily_name c \<noteq> interval_name c'"
  by (simp add: daily_name_def interval_name_def)

section \<open>Facts about runs without failures\<close>

lemma external_call_free:
  "set (faults w) \<subseteq> {None} \<Longrightarrow> external_call w = (None, w\<lparr>faults := tl (faults w)\<rparr>)"
  by (cases "faults w") (auto simp: external_call_def)

lemma tl_free: "set xs \<subseteq> {None} \<Longrightarrow> set (tl xs) \<subseteq> {None}"
  by (cases xs) auto

lemmas free_simps = fault_free_def external_call_free tl_free

lemma map_of_replace_rows:
  "map_of (map (\<lambda>r. if fst r = k then (k, v) else r) rows) k' =
     (if k' = k then (if k \<in> fst ` set rows then Some v else None) else map_of rows k')"
  by (induction rows) force+

lemma map_of_upsert_row_same: "map_of (upsert_row k v rows) k = Some v"
proof (cases "k \<in> fst ` set rows")
  case True
  then show ?thesis
    by (simp add: upsert_row_def map_of_replace_rows)
next
  case False
  then have "map_of rows k = None"
    by (simp add: map_of_eq_None_iff)
  with False show ?thesis
    by (simp add: upsert_row_def map_add_def)
qed

lemma map_of_upsert_row_other: "k' \<noteq> k \<Longrightarrow> map_of (upsert_row k v rows) k' = map_of rows k'"
  by (cases "k \<in> fst ` set rows")
    (simp_all add: upsert_row_def map_of_replace_rows map_add_def split: option.splits)

lemma set_upsert_row:
  "set (upsert_row k v rows) = insert (k, v) {r \<in> set rows. fst r \<noteq> k}"
  by (auto simp: upsert_row_def image_iff)

lemma timedelta_minutes_in_range:
  "0 < m \<Longrightarrow> m < 1440000000000 \<Longrightarrow> timedelta_minutes m = Some (m * 60)"
  by (simp add: timedelta_minutes_def)

section \<open>Facts about start-up\<close>

lemma first_run_cong:
  "clock w' = clock w \<Longrightarrow> latency w' = latency w \<Longrightarrow> first_run w' step first = first_run w step first"
  by (simp add: first_run_def)

lemma restore_daily_ok:
  "job_queue w = Some jobs \<Longrightarrow> \<forall>r\<in>set rows. snd r \<noteq> None \<Longrightarrow>
     restore_daily rows w =
       Inr (w\<lparr>job_queue := Some (jobs @ map (\<lambda>r. daily_timer (fst r) (the (snd r))) rows)\<rparr>)"
proof (induction rows arbitrary: w jobs)
  case Nil
  then show ?case by simp
next
  case (Cons r rows)
  obtain c t where r: "r = (c, Some t)" using Cons.prems(2) by (cases r) auto
  have "restore_daily rows (w\<lparr>job_queue := Some (run_daily t c (daily_name c) jobs)\<rparr>) =
      Inr (w\<lparr>job_queue := Some (run_daily t c (daily_name c) jobs)\<rparr>
            \<lparr>job_queue := Some (run_daily t c (daily_name c) jobs @ map (\<lambda>r. daily_timer (fst r) (the (snd r))) rows)\<rparr>)"
    using Cons.prems(2) by (intro Cons.IH) auto
  with Cons.prems(1) r show ?case
    by (simp add: run_daily_def daily_timer_def)
qed

lemma run_repeating_pending:
  "\<not> running w \<Longrightarrow> 0 < m \<Longrightarrow>
     run_repeating w (m * 60) 0 c (interval_name c) jobs = Some (jobs @ [pending_timer c m])"
  by (simp add: run_repeating_def interval_step_def pending_timer_def)

lemma restore_intervals_ok:
  "job_queue w = Some jobs \<Longrightarrow> \<not> running w \<Longrightarrow>
     \<forall>r\<in>set rows. 0 < snd r \<and> snd r < 1440000000000 \<Longrightarrow>
     restore_intervals rows w =
       Inr (w\<lparr>job_queue := Some (jobs @ map (\<lambda>r. pending_timer (fst r) (snd r)) rows)\<rparr>)"
proof (induction rows arbitrary: w jobs)
  case Nil
  then show ?case by simp
next
  case (Cons r rows)
  obtain c m where r: "r = (c, m)" by (cases r)
  with Cons.prems(3) have m: "0 < m" "m < 1440000000000"
    by simp_all
  then have td: "timedelta_minutes m = Some (m * 60)"
    by (rule timedelta_minutes_in_range)
  have rr: "run_repeating w (m * 60) 0 c (interval_name c) jobs = Some (jobs @ [pending_timer c m])"
    using Cons.prems(2) m(1) by (rule run_repeating_pending)
  have "restore_intervals rows (w\<lparr>job_queue := Some (jobs @ [pending_timer c m])\<rparr>) =
      Inr (w\<lparr>job_queue := Some (jobs @ [pending_timer c m])\<rparr>
            \<lparr>job_queue := Some ((jobs @ [pending_timer c m]) @
               map (\<lambda>r. pending_timer (fst r) (snd r)) rows)\<rparr>)"
    using Cons.prems(2,3) by (intro Cons.IH) auto
  with Cons.prems(1) r td rr show ?case
    by simp
qed

lemma schedule_pending_append:
  "schedule_pending w (xs @ ys) =
     (case schedule_pending w xs of
        None \<Rightarrow> None
      | Some xs' \<Rightarrow> map_option ((@) xs') (schedule_pending w ys))"
proof (induction xs)
  case Nil
  then show ?case
    by (cases "schedule_pending w ys") simp_all
next
  case (Cons j xs)
  then show ?case
    by (cases "schedule_pending w ys") (auto split: trigger.splits option.splits)
qed

lemma schedule_pending_daily:
  "schedule_pending w (map (\<lambda>r. daily_timer (f r) (g r)) rows) =
     Some (map (\<lambda>r. daily_timer (f r) (g r)) rows)"
  by (induction rows) (simp_all add: daily_timer_def)

lemma schedule_pending_intervals:
  "\<forall>r\<in>set rows. first_run w (g r * 60) 0 \<noteq> None \<Longrightarrow>
     schedule_pending w (map (\<lambda>r. pending_timer (f r) (g r)) rows) =
       Some (map (\<lambda>r. interval_timer w (f r) (g r)) rows)"
  by (induction rows) (auto simp: pending_timer_def interval_timer_def)

section \<open>Facts about reports and scheduled delivery\<close>

lemma only_logged_refl: "only_logged w w"
  by (simp add: only_logged_def)

lemma only_logged_trans: "only_logged w w1 \<Longrightarrow> only_logged w1 w2 \<Longrightarrow> only_logged w w2"
  by (simp add: only_logged_def)

lemma only_logged_log_failure: "only_logged w (log_failure f c e w)"
  by (cases "faults w"; cases "hd (faults w)")
    (simp_all add: only_logged_def log_failure_def log_error_to_db_def external_call_def)

lemma fault_free_log_failure: "fault_free w \<Longrightarrow> fault_free (log_failure f c e w)"
  by (simp add: log_failure_def log_error_to_db_def free_simps)

lemma get_exchange_rate_frame:
  "only_logged w (snd (get_exchange_rate s w))"
  "fault_free w \<Longrightarrow> fault_free (snd (get_exchange_rate s w))"
  by (simp_all add: get_exchange_rate_def Let_def only_logged_log_failure fault_free_log_failure
      only_logged_refl split: provider_reply.splits)
    (simp_all add: only_logged_def fault_free_def)

lemma get_exchange_rate_result:
  "only_logged w w1 \<Longrightarrow> fst (get_exchange_rate s w1) = fst (get_exchange_rate s w)"
  by (simp add: get_exchange_rate_def Let_def only_logged_def upper_def split: provider_reply.splits)

lemma get_yesterday_rate_free:
  "fault_free w \<Longrightarrow>
     get_yesterday_rate s w = (currency_data w (upper w s), w\<lparr>faults := tl (faults w)\<rparr>)"
  by (simp add: get_yesterday_rate_def free_simps)

lemma change_of_Some: "\<exists>a p. change_of cur y = Some (a, p)"
  by (simp add: change_of_def percent_change_def fdiv_def Let_def split: option.splits)

lemma rate_line_Some: "\<exists>l. rate_line s cur y = Some l"
proof (cases cur)
  case None
  then show ?thesis by (simp add: rate_line_def split: prod.splits)
next
  case (Some x)
  from change_of_Some[of x y] obtain a p where "change_of x y = Some (a, p)" by blast
  with Some show ?thesis by (simp add: rate_line_def split: prod.splits)
qed

lemma report_lines_free:
  "fault_free w \<Longrightarrow>
     \<exists>w'. report_lines subs w = (Inr (map (line_of w) subs), w') \<and> only_logged w w' \<and> fault_free w'"
proof (induction subs arbitrary: w)
  case Nil
  then show ?case by (simp add: only_logged_refl)
next
  case (Cons s subs)
  obtain cur w1 where g1: "get_exchange_rate s w = (cur, w1)" by force
  from get_exchange_rate_frame[of w s] g1 Cons.prems
  have f1: "only_logged w w1" "fault_free w1" by simp_all
  let ?w2 = "w1\<lparr>faults := tl (faults w1)\<rparr>"
  have g2: "get_yesterday_rate s w1 = (currency_data w1 (upper w1 s), ?w2)"
    using f1(2) by (rule get_yesterday_rate_free)
  have f2: "only_logged w1 ?w2" "fault_free ?w2"
    using f1(2) by (simp_all add: only_logged_def free_simps)
  have ol: "only_logged w ?w2" using f1(1) f2(1) by (rule only_logged_trans)
  from Cons.IH[OF f2(2)] obtain w3 where
    r: "report_lines subs ?w2 = (Inr (map (line_of ?w2) subs), w3)" "only_logged ?w2 w3" "fault_free w3"
    by blast
  have cd: "currency_data ?w2 = currency_data w" "currency_data w1 = currency_data w"
    "upper ?w2 = upper w" "upper w1 = upper w"
    using ol f1(1) by (simp_all add: only_logged_def upper_def fun_eq_iff)
  have same: "line_of ?w2 = line_of w"
    unfolding line_of_def fun_eq_iff
    by (simp only: get_exchange_rate_result[OF ol] cd) simp
  obtain l where l: "rate_line s cur (currency_data w (upper w s)) = Some l"
    using rate_line_Some by blast
  have ll: "l = line_of w s"
    using l g1 by (simp add: line_of_def)
  from g1 g2 l r(1) same ll cd have "report_lines (s # subs) w = (Inr (map (line_of w) (s # subs)), w3)"
    by simp
  moreover have "only_logged w w3" using ol r(2) by (rule only_logged_trans)
  ultimately show ?case using r(3) by blast
qed

lemma list_subscriptions_free:
  "fault_free w \<Longrightarrow>
     list_subscriptions c w = (sort (chat_symbols c w), w\<lparr>faults := tl (faults w)\<rparr>)"
  by (simp add: list_subscriptions_def chat_symbols_def free_simps)

lemma sort_Nil_iff: "sort xs = [] \<longleftrightarrow> xs = ([] :: string list)"
  by (metis length_sort length_0_conv)

lemma send_message_free:
  "fault_free w \<Longrightarrow>
     send_message c m w = (None, w\<lparr>faults := tl (faults w), outbox := outbox w @ [(c, m)]\<rparr>)"
  by (simp add: send_message_def free_simps)

lemma send_rates_reports:
  assumes ff: "fault_free w" and q: "job_queue w = Some jobs" and i: "i < length jobs"
    and nm: "name_chat_id w (job_name (jobs ! i)) = Some c"
    and ne: "chat_symbols c w \<noteq> []"
  shows "outbox (send_rates i w) =
           outbox w @ [(c, RatesText (report_text (now_text w) (map (line_of w) (sort (chat_symbols c w)))))] \<and>
         schedules (send_rates i w) = schedules w \<and> intervals (send_rates i w) = intervals w \<and>
         job_queue (send_rates i w) = job_queue w"
proof -
  let ?w1 = "w\<lparr>faults := tl (faults w)\<rparr>"
  let ?subs = "sort (chat_symbols c w)"
  have ff1: "fault_free ?w1" using ff by (simp add: free_simps)
  have ol1: "only_logged w ?w1" by (simp add: only_logged_def)
  from report_lines_free[OF ff1, of ?subs] obtain w2 where
    r: "report_lines ?subs ?w1 = (Inr (map (line_of ?w1) ?subs), w2)" "only_logged ?w1 w2" "fault_free w2"
    by blast
  have same: "line_of ?w1 = line_of w"
    unfolding line_of_def fun_eq_iff
    by (simp add: get_exchange_rate_result[OF ol1] upper_def)
  have ol2: "only_logged w w2" using ol1 r(2) by (rule only_logged_trans)
  have sub_ne: "?subs \<noteq> []" using ne by (simp add: sort_Nil_iff)
  have sr: "send_rates i w =
      w2\<lparr>faults := tl (faults w2),
         outbox := outbox w2 @ [(c, RatesText (report_text (now_text w) (map (line_of w) ?subs)))]\<rparr>"
    using q i nm sub_ne r(1) same
    by (simp add: send_rates_def list_subscriptions_free[OF ff] send_message_free[OF r(3)])
  from ol2 show ?thesis
    unfolding sr by (simp add: only_logged_def)
qed

lemma send_rates_cleans_up:
  assumes ff: "fault_free w" and q: "job_queue w = Some jobs" and i: "i < length jobs"
    and nm: "name_chat_id w (job_name (jobs ! i)) = Some c"
    and em: "chat_symbols c w = []" and rw: "schedule_rewritable c w"
  shows "\<not> daily_enabled c (send_rates i w) \<and> \<not> interval_enabled c (send_rates i w) \<and>
         job_queue (send_rates i w) = Some (schedule_removal i jobs) \<and>
         outbox (send_rates i w) = outbox w"
proof -
  have ls: "list_subscriptions c w = ([], w\<lparr>faults := tl (faults w)\<rparr>)"
    using em by (simp add: list_subscriptions_free[OF ff])
  have iv: "\<not> (\<exists>r\<in>set (map (\<lambda>r. if fst r = c then (fst r, fst (snd r), False) else r) rows).
                fst r = c \<and> snd (snd r))" for rows :: "(chat \<times> int \<times> bool) list"
    by auto
  have up: "\<not> (\<exists>r\<in>set (upsert_row c (x, False) rows). fst r = c \<and> snd (snd r))"
    for rows :: "(chat \<times> tod option \<times> bool) list" and x
    by (auto simp: set_upsert_row)
  have none: "map_of rows c = None \<Longrightarrow> \<not> (\<exists>r\<in>set rows. fst r = c \<and> snd (snd r))"
    for rows :: "(chat \<times> tod option \<times> bool) list"
    by (auto simp: map_of_eq_None_iff image_iff)
  show ?thesis
  proof (cases "map_of (schedules w) c")
    case None
    with ff q i nm ls rw iv up none[OF None] show ?thesis
      by (simp add: send_rates_def get_schedule_def upsert_schedule_def upsert_interval_def
          on_exception_def log_failure_def log_error_to_db_def free_simps
          daily_enabled_def interval_enabled_def schedule_rewritable_def del: set_map)
  next
    case (Some row)
    obtain topt en where row: "row = (topt, en)" by (cases row)
    show ?thesis
    proof (cases topt)
      case None
      with Some row ff q i nm ls rw iv up show ?thesis
        by (simp add: send_rates_def get_schedule_def upsert_schedule_def upsert_interval_def
            on_exception_def log_failure_def log_error_to_db_def free_simps
            daily_enabled_def interval_enabled_def schedule_rewritable_def del: set_map)
    next
      case (Some t)
      with \<open>map_of (schedules w) c = Some row\<close> row rw obtain t' where
        t': "time_in w (strftime_HM t) = Some t'"
        by (auto simp: schedule_rewritable_def)
      with Some \<open>map_of (schedules w) c = Some row\<close> row ff q i nm ls iv up show ?thesis
        by (simp add: send_rates_def get_schedule_def upsert_schedule_def upsert_interval_def
            free_simps daily_enabled_def interval_enabled_def del: set_map)
    qed
  qed
qed

section \<open>Floating-point numbers: the rounding\<close>

text \<open>
  \<open>floor_log2\<close> is the binary exponent of a positive number, and \<open>round_half_even\<close> is
  within a half of its argument; the examples are values of the IEEE 754 arithmetic.
\<close>

lemma round_half_even_near: "\<bar>of_int (round_half_even x) - x\<bar> \<le> 1 / 2"
  unfolding round_half_even_def Let_def
  by (auto simp: abs_if not_less) linarith+

lemma bitlen_powi:
  assumes "0 < p"
  shows "2 powi (bitlen p - 1) \<le> (of_int p :: rat) \<and> (of_int p :: rat) < 2 powi (bitlen p)"
proof -
  have b: "1 \<le> bitlen p"
    using assms bitlen_eq_zero_iff[of p] bitlen_nonneg[of p] by linarith
  from bitlen_bounds[OF assms]
  have "(of_int (2 ^ nat (bitlen p - 1)) :: rat) \<le> of_int p"
       "(of_int p :: rat) < of_int (2 ^ nat (bitlen p))"
    by (simp_all only: of_int_le_iff of_int_less_iff)
  with b show ?thesis
    by (simp add: power_int_nonneg_exp)
qed

lemma floor_log2_bounds:
  assumes "0 < x"
  shows "2 powi floor_log2 x \<le> x \<and> x < 2 powi (floor_log2 x + 1)"
proof -
  obtain p q where pq: "quotient_of x = (p, q)" by (cases "quotient_of x")
  have q: "0 < q" using pq by (rule quotient_of_denom_pos)
  have x: "x = of_int p / of_int q" using pq by (rule quotient_of_div)
  have p: "0 < p" using assms q x by (simp add: zero_less_divide_iff)
  define a b where "a = bitlen p" and "b = bitlen q"
  have pb: "2 powi (a - 1) \<le> (of_int p :: rat)" "(of_int p :: rat) < 2 powi a"
    using bitlen_powi[OF p] by (simp_all add: a_def)
  have qb: "2 powi (b - 1) \<le> (of_int q :: rat)" "(of_int q :: rat) < 2 powi b"
    using bitlen_powi[OF q] by (simp_all add: b_def)
  have qr: "(0::rat) < of_int q" using q by simp
  have e1: "(2::rat) powi (a - b + 1) = 2 powi a / 2 powi (b - 1)"
    by (simp add: power_int_diff power_int_add)
  have e2: "(2::rat) powi (a - b - 1) = 2 powi (a - 1) / 2 powi b"
    by (simp add: power_int_diff)
  have pos: "(0::rat) < 2 powi (b - 1)" "(0::rat) < 2 powi b" "(0::rat) < 2 powi (a - 1)"
    by simp_all
  have up: "x < 2 powi (a - b + 1)"
  proof -
    have "x \<le> of_int p / 2 powi (b - 1)"
      unfolding x using qb(1) pos(1) p qr by (intro divide_left_mono) simp_all
    also have "\<dots> < 2 powi a / 2 powi (b - 1)"
      using pb(2) pos(1) by (simp add: divide_strict_right_mono)
    finally show ?thesis by (simp only: e1)
  qed
  have lo: "2 powi (a - b - 1) < x"
  proof -
    have "(2::rat) powi (a - 1) / 2 powi b < 2 powi (a - 1) / of_int q"
      using qb(2) qr pos(3) by (intro divide_strict_left_mono) simp_all
    also have "\<dots> \<le> of_int p / of_int q"
      using pb(1) qr by (simp add: divide_right_mono)
    finally show ?thesis by (simp only: e2 x)
  qed
  show ?thesis
  proof (cases "2 powi (a - b) \<le> x")
    case True
    then show ?thesis using up pq by (simp add: floor_log2_def a_def b_def)
  next
    case False
    then have "x < 2 powi (a - b)" by simp
    with False lo pq show ?thesis
      by (simp add: floor_log2_def a_def b_def algebra_simps)
  qed
qed


lemma to_double_tenth: "to_double (1 / 10) = Finite (3602879701896397 / 36028797018963968)"
  by code_simp

lemma format_2f_examples:
  "format_2f False (Finite (1 / 8)) = ''0.12''"
  "format_2f False (to_double (2675 / 1000)) = ''2.67''"
  "format_2f True (Finite (- 1234567)) = ''-1,234,567.00''"
  by code_simp+

section \<open>What the handlers do to the daily schedules\<close>

lemma schedules_external_call [simp]: "schedules (snd (external_call w)) = schedules w"
  by (simp add: external_call_def split: list.splits)

lemma schedules_log_failure [simp]: "schedules (log_failure f c e w) = schedules w"
  by (simp add: log_failure_def log_error_to_db_def split_def split: option.splits)

lemma schedules_on_exception [simp]: "schedules (on_exception f c e w) = schedules w"
  by (simp add: on_exception_def)

lemma schedules_send_message [simp]: "schedules (snd (send_message c m w)) = schedules w"
  by (simp add: send_message_def split_def split: option.splits)

lemma schedules_reply_text [simp]: "schedules (reply_text h c m w) = schedules w"
  using schedules_send_message[of c m w]
  by (simp add: reply_text_def split_def split: option.splits)

lemma schedules_except_reply [simp]: "schedules (except_reply h c m e w) = schedules w"
  using schedules_send_message[of c m "on_exception h (Some c) e w"]
  by (simp add: except_reply_def split_def split: option.splits)

lemma schedules_store_ops [simp]:
  "schedules (add_user c n w) = schedules w"
  "schedules (snd (add_subscription c s w)) = schedules w"
  "schedules (snd (remove_subscription c s w)) = schedules w"
  "schedules (snd (clear_subscriptions c w)) = schedules w"
  "schedules (snd (list_subscriptions c w)) = schedules w"
  "schedules (snd (get_schedule c w)) = schedules w"
  "schedules (upsert_interval c m en w) = schedules w"
  "schedules (snd (get_interval c w)) = schedules w"
  using schedules_external_call[of w]
  by (simp_all add: add_user_def add_subscription_def remove_subscription_def
      clear_subscriptions_def list_subscriptions_def get_schedule_def upsert_interval_def
      get_interval_def split_def Let_def split: option.splits)

lemma schedules_provider [simp]:
  "schedules (snd (get_exchange_rate s w)) = schedules w"
  "schedules (snd (get_yesterday_rate s w)) = schedules w"
  "schedules (snd (get_top20_symbols w)) = schedules w"
  using schedules_external_call[of w]
  by (simp_all add: get_exchange_rate_def get_yesterday_rate_def get_top20_symbols_def split_def
      Let_def split: option.splits provider_reply.splits listing_reply.splits)

lemma schedules_report_lines [simp]: "schedules (snd (report_lines subs w)) = schedules w"
  by (induction subs arbitrary: w)
    (simp_all add: split_def Let_def split: option.splits sum.splits)

lemma schedules_subscribe_each [simp]: "schedules (snd (subscribe_each c ss w)) = schedules w"
  by (induction ss arbitrary: w) (simp_all add: split_def Let_def)

lemma schedules_handlers:
  "schedules (start c n w) = schedules w"
  "schedules (subscribe_cmd c args w) = schedules w"
  "schedules (unsubscribe_cmd c args w) = schedules w"
  "schedules (unsubscribe_all_cmd c w) = schedules w"
  "schedules (subscribe_top20_cmd c w) = schedules w"
  "schedules (list_cmd c w) = schedules w"
  "schedules (rates_cmd c w) = schedules w"
  by (simp_all add: start_def subscribe_cmd_def unsubscribe_cmd_def unsubscribe_all_cmd_def
      subscribe_top20_cmd_def list_cmd_def rates_cmd_def split_def Let_def
      split: list.splits sum.splits)


lemma schedules_job_queue_update [simp]: "schedules (w\<lparr>job_queue := q\<rparr>) = schedules (w :: world)"
  by simp

lemma schedules_interval_handlers:
  "schedules (setinterval_cmd c args w) = schedules w"
  "schedules (clearinterval_cmd c w) = schedules w"
  by (simp_all add: setinterval_cmd_def clearinterval_cmd_def split_def Let_def
      split: list.splits option.splits)

lemma daily_enabled_cong: "schedules w' = schedules w \<Longrightarrow> daily_enabled c w' = daily_enabled c w"
  by (simp add: daily_enabled_def)

lemma daily_enabled_upsert_schedule:
  "daily_enabled c' (upsert_schedule c t en w) \<Longrightarrow> (en \<and> c' = c) \<or> daily_enabled c' w"
  using schedules_external_call[of w]
  by (fastforce simp: upsert_schedule_def daily_enabled_def split_def set_upsert_row
      split: option.splits if_splits)

lemma daily_enabled_settime:
  "daily_enabled c' (settime_cmd c args w) \<Longrightarrow> daily_enabled c' w"
proof -
  assume a: "daily_enabled c' (settime_cmd c args w)"
  have up: "daily_enabled c' (upsert_schedule c t False w) \<Longrightarrow> daily_enabled c' w" for t
    using daily_enabled_upsert_schedule[of c' c t False w] by simp
  have sm: "daily_enabled c' (snd (send_message c m w1)) = daily_enabled c' w1" for m w1
    by (rule daily_enabled_cong) simp
  have er: "daily_enabled c' (except_reply h c m e w1) = daily_enabled c' w1" for h m e w1
    by (rule daily_enabled_cong) simp
  from a show ?thesis
    by (auto simp: settime_cmd_def split_def er sm[unfolded split_def]
        split: list.splits option.splits if_splits prod.splits dest: up)
qed


lemma daily_enabled_autoupdate:
  "daily_enabled c' (autoupdate_cmd c args w) \<Longrightarrow>
     (c' = c \<and> (\<exists>a rest. args = a # rest \<and> lower a = ''on'')) \<or> daily_enabled c' w"
proof -
  assume a: "daily_enabled c' (autoupdate_cmd c args w)"
  have gs: "daily_enabled c' (snd (get_schedule c w)) = daily_enabled c' w"
    by (rule daily_enabled_cong) simp
  have up: "daily_enabled c' (upsert_schedule c t en w1) \<Longrightarrow> (en \<and> c' = c) \<or> daily_enabled c' w1"
    for t en w1
    by (rule daily_enabled_upsert_schedule)
  have sm: "daily_enabled c' (snd (send_message c m w1)) = daily_enabled c' w1" for m w1
    by (rule daily_enabled_cong) simp
  have rt: "daily_enabled c' (reply_text h c m w1) = daily_enabled c' w1" for h m w1
    by (rule daily_enabled_cong) simp
  have oe: "daily_enabled c' (on_exception h x e w1) = daily_enabled c' w1" for h x e w1
    by (rule daily_enabled_cong) simp
  have jq: "daily_enabled c' (w1\<lparr>job_queue := q\<rparr>) = daily_enabled c' w1" for q and w1 :: world
    by (rule daily_enabled_cong) simp
  have lg: "daily_enabled c' (w1\<lparr>logger := q\<rparr>) = daily_enabled c' w1" for q and w1 :: world
    by (rule daily_enabled_cong) simp
  from a show ?thesis
    by (auto simp: autoupdate_cmd_def split_def Let_def rt oe jq lg sm gs
        split: list.splits option.splits if_splits dest!: up)
qed

lemma daily_enabled_send_rates:
  "daily_enabled c' (send_rates i w) \<Longrightarrow> daily_enabled c' w"
proof -
  assume a: "daily_enabled c' (send_rates i w)"
  have up: "daily_enabled c' (upsert_schedule c t False w1) \<Longrightarrow> daily_enabled c' w1" for c t w1
    using daily_enabled_upsert_schedule[of c' c t False w1] by simp
  have fr: "daily_enabled c' (snd (list_subscriptions c w1)) = daily_enabled c' w1"
    "daily_enabled c' (snd (get_schedule c w1)) = daily_enabled c' w1"
    "daily_enabled c' (upsert_interval c m en w1) = daily_enabled c' w1"
    "daily_enabled c' (snd (report_lines subs w1)) = daily_enabled c' w1"
    "daily_enabled c' (snd (send_message c msg w1)) = daily_enabled c' w1"
    "daily_enabled c' (on_exception h x e w1) = daily_enabled c' w1"
    "daily_enabled c' (w1\<lparr>job_queue := q\<rparr>) = daily_enabled c' w1"
    for c m en subs msg h x e q and w1 :: world
    by (rule daily_enabled_cong, simp)+
  from a show ?thesis
    by (auto simp: send_rates_def split_def Let_def fr
        split: list.splits option.splits if_splits sum.splits dest!: up)
qed

lemma daily_enabled_dispatch:
  "daily_enabled c (dispatch ev w) \<Longrightarrow> enables_daily c ev \<or> daily_enabled c w"
proof (cases ev)
  case (AutoupdateCmd c' args)
  assume "daily_enabled c (dispatch ev w)"
  with AutoupdateCmd daily_enabled_autoupdate[of c c' args w] show ?thesis
    by (auto simp: enables_daily_def)
next
  case (SettimeCmd c' args)
  assume "daily_enabled c (dispatch ev w)"
  with SettimeCmd daily_enabled_settime[of c c' args w] show ?thesis by simp
next
  case (Fire i)
  assume "daily_enabled c (dispatch ev w)"
  with Fire daily_enabled_send_rates[of c i w] show ?thesis by simp
qed (simp_all add: daily_enabled_def schedules_handlers schedules_interval_handlers)

lemma daily_stays_disabled:
  "\<not> daily_enabled c w \<Longrightarrow> \<forall>ev\<in>set events. \<not> enables_daily c ev \<Longrightarrow>
     \<not> daily_enabled c (fold dispatch events w)"
proof (induction events arbitrary: w)
  case Nil
  then show ?case by simp
next
  case (Cons ev events)
  from Cons.prems have "\<not> daily_enabled c (dispatch ev w)"
    using daily_enabled_dispatch[of c ev w] by auto
  with Cons show ?case by simp
qed

section \<open>Subscription store: the claims\<close>

text \<open>
  Claim C5.  \<open>add_subscription\<close> stores and looks up the symbol in upper case.  Two
  symbols that agree up to case give the same call (same result, same state), as
  \<open>"btc"\<close> and \<open>"BTC"\<close> do.  A call that goes through to the store returns whether
  the row \<open>(chat, upper symbol)\<close> was missing, and adds exactly that row when it was.  A
  second call for the same chat and a symbol equal up to case then returns \<open>False\<close> and
  leaves the subscriptions as they are.
\<close>

theorem add_subscription_upper_idempotent:
  "(upper w s = upper w s' \<longrightarrow> add_subscription c s w = add_subscription c s' w) \<and>
   (next_call_ok w \<longrightarrow>
      fst (add_subscription c s w) = ((c, upper w s) \<notin> set (subscriptions w)) \<and>
      subscriptions (snd (add_subscription c s w)) =
        (if (c, upper w s) \<in> set (subscriptions w) then subscriptions w
         else subscriptions w @ [(c, upper w s)])) \<and>
   (next_call_ok w \<and> upper w s = upper w s' \<longrightarrow>
      (c, upper w s) \<in> set (subscriptions (snd (add_subscription c s w))) \<and>
      \<not> fst (add_subscription c s' (snd (add_subscription c s w))) \<and>
      subscriptions (snd (add_subscription c s' (snd (add_subscription c s w)))) =
        subscriptions (snd (add_subscription c s w))) \<and>
   (ascii s \<longrightarrow> upper w s = map upper_char s)"
proof (intro conjI impI)
  assume "upper w s = upper w s'"
  then show "add_subscription c s w = add_subscription c s' w"
    by (auto simp: add_subscription_def split: prod.splits option.splits)
next
  assume "next_call_ok w"
  then show "fst (add_subscription c s w) = ((c, upper w s) \<notin> set (subscriptions w))"
    and "subscriptions (snd (add_subscription c s w)) =
        (if (c, upper w s) \<in> set (subscriptions w) then subscriptions w
         else subscriptions w @ [(c, upper w s)])"
    by (simp_all add: add_subscription_def external_call_ok Let_def)
next
  assume a: "next_call_ok w \<and> upper w s = upper w s'"
  define w1 where "w1 = snd (add_subscription c s w)"
  have u: "upper w1 s' = upper w s"
    using a by (simp add: w1_def)
  from a show in1: "(c, upper w s) \<in> set (subscriptions (snd (add_subscription c s w)))"
    by (simp add: add_subscription_def external_call_ok Let_def)
  from in1 u show "\<not> fst (add_subscription c s' (snd (add_subscription c s w)))"
    unfolding w1_def[symmetric]
    by (cases "faults w1")
      (auto simp: add_subscription_def[of c s' w1] external_call_def Let_def split: option.splits)
  from in1 u show "subscriptions (snd (add_subscription c s' (snd (add_subscription c s w)))) =
      subscriptions (snd (add_subscription c s w))"
    unfolding w1_def[symmetric]
    by (cases "faults w1")
      (auto simp: add_subscription_def[of c s' w1] external_call_def Let_def on_exception_tables
        split: option.splits)
next
  assume "ascii s"
  then show "upper w s = map upper_char s"
    by (simp add: upper_def upper_ascii_def)
qed

theorem add_subscription_btc_witness:
  "add_subscription 7 ''btc'' empty_store = add_subscription 7 ''BTC'' empty_store \<and>
   fst (add_subscription 7 ''btc'' empty_store) \<and>
   subscriptions (snd (add_subscription 7 ''btc'' empty_store)) = [(7, ''BTC'')] \<and>
   \<not> fst (add_subscription 7 ''BTC'' (snd (add_subscription 7 ''btc'' empty_store))) \<and>
   subscriptions (snd (add_subscription 7 ''BTC'' (snd (add_subscription 7 ''btc'' empty_store)))) =
     [(7, ''BTC'')]"
proof -
  have a: "ascii ''btc''" "ascii ''BTC''"
    by (simp_all add: ascii_def less_char_def)
  have m: "map upper_char ''btc'' = ''BTC''" "map upper_char ''BTC'' = ''BTC''"
    by (simp_all add: upper_char_def)
  have ok: "next_call_ok empty_store"
    by (simp add: next_call_ok_def empty_store_def)
  have e: "subscriptions empty_store = []"
    by (simp add: empty_store_def)
  note t = add_subscription_upper_idempotent[of empty_store "''btc''" "''BTC''" 7]
  note t' = add_subscription_upper_idempotent[of empty_store "''BTC''" "''BTC''" 7]
  from t a(1) m(1) have u1: "upper empty_store ''btc'' = ''BTC''"
    by simp
  from t' a(2) m(2) have u2: "upper empty_store ''BTC'' = ''BTC''"
    by simp
  from u1 u2 have ueq: "upper empty_store ''btc'' = upper empty_store ''BTC''"
    by simp
  from t ueq have eq: "add_subscription 7 ''btc'' empty_store = add_subscription 7 ''BTC'' empty_store"
    by blast
  from t ok have first:
    "fst (add_subscription 7 ''btc'' empty_store) =
       ((7, upper empty_store ''btc'') \<notin> set (subscriptions empty_store))"
    "subscriptions (snd (add_subscription 7 ''btc'' empty_store)) =
       (if (7, upper empty_store ''btc'') \<in> set (subscriptions empty_store)
        then subscriptions empty_store
        else subscriptions empty_store @ [(7, upper empty_store ''btc'')])"
    by blast+
  from t ok ueq have rest:
    "\<not> fst (add_subscription 7 ''BTC'' (snd (add_subscription 7 ''btc'' empty_store)))"
    "subscriptions (snd (add_subscription 7 ''BTC'' (snd (add_subscription 7 ''btc'' empty_store)))) =
       subscriptions (snd (add_subscription 7 ''btc'' empty_store))"
    by blast+
  from first have first':
    "fst (add_subscription 7 ''btc'' empty_store)"
    "subscriptions (snd (add_subscription 7 ''btc'' empty_store)) = [(7, ''BTC'')]"
    by (simp_all add: u1 e)
  from rest(2) first'(2) have last:
    "subscriptions (snd (add_subscription 7 ''BTC'' (snd (add_subscription 7 ''btc'' empty_store)))) =
       [(7, ''BTC'')]"
    by (rule trans)
  show ?thesis
    by (intro conjI) (fact eq first' rest(1) last)+
qed

text \<open>
  Claim C6.  Starting from a chat without subscriptions and with no storage failure, after
  \<open>add_subscription\<close> calls for symbols that are distinct (as stored, in upper case),
  \<open>list_subscriptions\<close> returns exactly the stored symbols in sorted order; the result
  is the same for every order of the calls, it is the sorted list of the symbols
  themselves when they are already in upper case, and for ASCII symbols it is the sorted
  list of the symbols with \<open>a\<close> to \<open>z\<close> replaced by \<open>A\<close> to \<open>Z\<close>.
\<close>

theorem list_subscriptions_sorted:
  assumes "fault_free w" and "chat_symbols c w = []" and "distinct (map (upper w) symbols)"
  shows "fst (list_subscriptions c (add_all c symbols w)) = sort (map (upper w) symbols) \<and>
         (\<forall>symbols'. mset symbols' = mset symbols \<longrightarrow>
            fst (list_subscriptions c (add_all c symbols' w)) =
            fst (list_subscriptions c (add_all c symbols w))) \<and>
         (map (upper w) symbols = symbols \<longrightarrow>
            fst (list_subscriptions c (add_all c symbols w)) = sort symbols) \<and>
         (list_all ascii symbols \<longrightarrow>
            fst (list_subscriptions c (add_all c symbols w)) = sort (map (map upper_char) symbols))"
proof -
  have main: "fst (list_subscriptions c (add_all c xs w)) = sort (map (upper w) xs)"
    if dx: "distinct (map (upper w) xs)" for xs
  proof -
    from assms(1,2) have *: "fault_free (add_all c xs w)"
      "distinct (chat_symbols c (add_all c xs w))"
      "set (chat_symbols c (add_all c xs w)) = upper w ` set xs"
      using chat_symbols_add_all[of w c xs] by auto
    have "mset (chat_symbols c (add_all c xs w)) = mset (map (upper w) xs)"
      using *(2,3) dx
        set_eq_iff_mset_eq_distinct[of "chat_symbols c (add_all c xs w)" "map (upper w) xs"]
      by simp
    then show ?thesis
      using *(1) by (simp add: list_subscriptions_fault_free sort_cong_mset)
  qed
  show ?thesis
  proof (intro conjI allI impI)
    show "fst (list_subscriptions c (add_all c symbols w)) = sort (map (upper w) symbols)"
      by (rule main[OF assms(3)])
  next
    fix symbols'
    assume m: "mset symbols' = mset symbols"
    then have "mset (map (upper w) symbols') = mset (map (upper w) symbols)"
      by simp
    moreover from this assms(3) have "distinct (map (upper w) symbols')"
      by (metis mset_eq_imp_distinct_iff)
    ultimately show "fst (list_subscriptions c (add_all c symbols' w)) =
        fst (list_subscriptions c (add_all c symbols w))"
      by (simp add: main assms(3) sort_cong_mset)
  next
    assume "map (upper w) symbols = symbols"
    with main[OF assms(3)]
    show "fst (list_subscriptions c (add_all c symbols w)) = sort symbols"
      by simp
  next
    assume "list_all ascii symbols"
    then have "map (upper w) symbols = map (map upper_char) symbols"
      by (induction symbols) (simp_all add: upper_def upper_ascii_def)
    with main[OF assms(3)]
    show "fst (list_subscriptions c (add_all c symbols w)) = sort (map (map upper_char) symbols)"
      by simp
  qed
qed

theorem list_subscriptions_sorted_witness:
  "fst (list_subscriptions 7 (add_all 7 [''usd'', ''BTC'', ''Eth''] empty_store)) =
     [''BTC'', ''ETH'', ''USD''] \<and>
   fst (list_subscriptions 7 (add_all 7 [''Eth'', ''usd'', ''BTC''] empty_store)) =
     [''BTC'', ''ETH'', ''USD'']"
proof -
  have u: "map (upper empty_store) [''usd'', ''BTC'', ''Eth''] = [''USD'', ''BTC'', ''ETH'']"
    by (simp add: upper_def upper_ascii_def upper_char_def ascii_def less_char_def)
  have h: "fault_free empty_store" "chat_symbols 7 empty_store = []"
    "distinct (map (upper empty_store) [''usd'', ''BTC'', ''Eth''])"
    unfolding u by (simp_all add: fault_free_def empty_store_def chat_symbols_def)
  have m: "mset [''Eth'', ''usd'', ''BTC''] = mset [''usd'', ''BTC'', ''Eth'']"
    by (simp add: add.commute)
  have srt: "sort [''USD'', ''BTC'', ''ETH''] = [''BTC'', ''ETH'', ''USD'']"
    by code_simp
  note t = list_subscriptions_sorted[OF h]
  from t have a: "fst (list_subscriptions 7 (add_all 7 [''usd'', ''BTC'', ''Eth''] empty_store)) =
      sort (map (upper empty_store) [''usd'', ''BTC'', ''Eth''])"
    by blast
  from t m have b: "fst (list_subscriptions 7 (add_all 7 [''Eth'', ''usd'', ''BTC''] empty_store)) =
      fst (list_subscriptions 7 (add_all 7 [''usd'', ''BTC'', ''Eth''] empty_store))"
    by blast
  from a b show ?thesis
    by (simp only: u srt)
qed

text \<open>
  Claim C8.  When the external call of a store operation fails with an exception \<open>e\<close>,
  the operation returns its safe default (\<open>False\<close>, \<open>0\<close>, the empty list,
  \<open>(None, False)\<close>, or nothing for the two upserts) and the state is the one its
  \<open>except\<close> block leaves: the tables of users, subscriptions and schedules are
  untouched, the error is written to the logger, and \<open>log_error_to_db\<close> adds the row
  \<open>(function, chat, message)\<close> to \<open>error_logs\<close>; only when that insert fails as well
  is the row missing, and the logger says so.  No exception reaches the caller: the
  operations are total functions into their result types.
\<close>

theorem store_failure_is_caught_and_logged:
  assumes "faults w = Some e # fs"
  shows
    "add_subscription c s w =
       (False, on_exception ''add_subscription'' (Some c) e (w\<lparr>faults := fs\<rparr>)) \<and>
     remove_subscription c s w =
       (False, on_exception ''remove_subscription'' (Some c) e (w\<lparr>faults := fs\<rparr>)) \<and>
     clear_subscriptions c w =
       (0, on_exception ''clear_subscriptions'' (Some c) e (w\<lparr>faults := fs\<rparr>)) \<and>
     list_subscriptions c w =
       ([], on_exception ''list_subscriptions'' (Some c) e (w\<lparr>faults := fs\<rparr>)) \<and>
     upsert_schedule c t en w =
       on_exception ''upsert_schedule'' (Some c) e (w\<lparr>faults := fs\<rparr>) \<and>
     get_schedule c w =
       ((None, False), on_exception ''get_schedule'' (Some c) e (w\<lparr>faults := fs\<rparr>)) \<and>
     upsert_interval c m en w =
       on_exception ''upsert_interval'' (Some c) e (w\<lparr>faults := fs\<rparr>) \<and>
     get_interval c w =
       ((None, False), on_exception ''get_interval'' (Some c) e (w\<lparr>faults := fs\<rparr>)) \<and>
     (\<forall>f. users (on_exception f (Some c) e (w\<lparr>faults := fs\<rparr>)) = users w \<and>
          subscriptions (on_exception f (Some c) e (w\<lparr>faults := fs\<rparr>)) = subscriptions w \<and>
          schedules (on_exception f (Some c) e (w\<lparr>faults := fs\<rparr>)) = schedules w \<and>
          intervals (on_exception f (Some c) e (w\<lparr>faults := fs\<rparr>)) = intervals w \<and>
          LogError (f @ '': '' @ e) \<in> set (logger (on_exception f (Some c) e (w\<lparr>faults := fs\<rparr>))) \<and>
          (case fs of
             Some e' # _ \<Rightarrow>
               error_logs (on_exception f (Some c) e (w\<lparr>faults := fs\<rparr>)) = error_logs w \<and>
               LogWriteFailed e' \<in> set (logger (on_exception f (Some c) e (w\<lparr>faults := fs\<rparr>)))
           | _ \<Rightarrow>
               error_logs (on_exception f (Some c) e (w\<lparr>faults := fs\<rparr>)) =
                 error_logs w @ [(f, Some c, f @ '': '' @ e)]))"
proof -
  note ec = external_call_fails[OF assms]
  have ops:
    "add_subscription c s w =
       (False, on_exception ''add_subscription'' (Some c) e (w\<lparr>faults := fs\<rparr>))"
    "remove_subscription c s w =
       (False, on_exception ''remove_subscription'' (Some c) e (w\<lparr>faults := fs\<rparr>))"
    "clear_subscriptions c w =
       (0, on_exception ''clear_subscriptions'' (Some c) e (w\<lparr>faults := fs\<rparr>))"
    "list_subscriptions c w =
       ([], on_exception ''list_subscriptions'' (Some c) e (w\<lparr>faults := fs\<rparr>))"
    "upsert_schedule c t en w = on_exception ''upsert_schedule'' (Some c) e (w\<lparr>faults := fs\<rparr>)"
    "get_schedule c w =
       ((None, False), on_exception ''get_schedule'' (Some c) e (w\<lparr>faults := fs\<rparr>))"
    "upsert_interval c m en w = on_exception ''upsert_interval'' (Some c) e (w\<lparr>faults := fs\<rparr>)"
    "get_interval c w =
       ((None, False), on_exception ''get_interval'' (Some c) e (w\<lparr>faults := fs\<rparr>))"
    by (simp_all add: ec add_subscription_def remove_subscription_def clear_subscriptions_def
        list_subscriptions_def upsert_schedule_def get_schedule_def upsert_interval_def
        get_interval_def)
  have logged:
    "users (on_exception f (Some c) e (w\<lparr>faults := fs\<rparr>)) = users w \<and>
     subscriptions (on_exception f (Some c) e (w\<lparr>faults := fs\<rparr>)) = subscriptions w \<and>
     schedules (on_exception f (Some c) e (w\<lparr>faults := fs\<rparr>)) = schedules w \<and>
     intervals (on_exception f (Some c) e (w\<lparr>faults := fs\<rparr>)) = intervals w \<and>
     LogError (f @ '': '' @ e) \<in> set (logger (on_exception f (Some c) e (w\<lparr>faults := fs\<rparr>))) \<and>
     (case fs of
        Some e' # _ \<Rightarrow>
          error_logs (on_exception f (Some c) e (w\<lparr>faults := fs\<rparr>)) = error_logs w \<and>
          LogWriteFailed e' \<in> set (logger (on_exception f (Some c) e (w\<lparr>faults := fs\<rparr>)))
      | _ \<Rightarrow>
          error_logs (on_exception f (Some c) e (w\<lparr>faults := fs\<rparr>)) =
            error_logs w @ [(f, Some c, f @ '': '' @ e)])" for f
    using on_exception_logged[where f = f and e = e and c = "Some c" and w = "w\<lparr>faults := fs\<rparr>"]
    by (auto simp: on_exception_tables split: list.splits option.splits)
  from ops logged show ?thesis
    by blast
qed

theorem store_failure_witness:
  "list_subscriptions 7 (empty_store\<lparr>subscriptions := [(7, ''BTC'')], faults := [Some ''down'']\<rparr>) =
     ([], empty_store\<lparr>subscriptions := [(7, ''BTC'')],
            logger := [LogError ''list_subscriptions: down''],
            error_logs := [(''list_subscriptions'', Some 7, ''list_subscriptions: down'')]\<rparr>) \<and>
   get_schedule 7 (empty_store\<lparr>faults := [Some ''down'', Some ''still down'']\<rparr>) =
     ((None, False),
      empty_store\<lparr>logger := [LogError ''get_schedule: down'', LogWriteFailed ''still down'']\<rparr>)"
proof -
  have a: "faults (empty_store\<lparr>subscriptions := [(7, ''BTC'')], faults := [Some ''down'']\<rparr>) =
      Some ''down'' # []"
    by simp
  have b: "faults (empty_store\<lparr>faults := [Some ''down'', Some ''still down'']\<rparr>) =
      Some ''down'' # [Some ''still down'']"
    by simp
  from store_failure_is_caught_and_logged[OF a, of 7]
    store_failure_is_caught_and_logged[OF b, of 7]
  show ?thesis
    by (simp add: on_exception_def log_failure_def log_error_to_db_def external_call_def
        empty_store_def)
qed

text \<open>
  Claim C9.  With the unique index on \<open>(chat_id, symbol)\<close> in place,
  \<open>remove_subscription\<close> returns \<open>True\<close> exactly when the row
  \<open>(chat, upper symbol)\<close> was there and is gone afterwards.  When the row is there and
  the storage access works, the call returns \<open>True\<close> and removes that row and no other.
  When the chat is not subscribed to the symbol, or the storage access fails, it returns
  \<open>False\<close> and the subscriptions are unchanged.
\<close>

theorem remove_subscription_true_iff_deleted:
  assumes "distinct (subscriptions w)"
  shows "(fst (remove_subscription c s w) \<longleftrightarrow>
           (c, upper w s) \<in> set (subscriptions w) \<and>
           (c, upper w s) \<notin> set (subscriptions (snd (remove_subscription c s w)))) \<and>
         ((c, upper w s) \<notin> set (subscriptions w) \<longrightarrow>
            \<not> fst (remove_subscription c s w) \<and>
            subscriptions (snd (remove_subscription c s w)) = subscriptions w) \<and>
         (next_call_ok w \<and> (c, upper w s) \<in> set (subscriptions w) \<longrightarrow>
            fst (remove_subscription c s w) \<and>
            subscriptions (snd (remove_subscription c s w)) =
              filter (\<lambda>r. r \<noteq> (c, upper w s)) (subscriptions w) \<and>
            set (subscriptions (snd (remove_subscription c s w))) =
              set (subscriptions w) - {(c, upper w s)} \<and>
            Suc (length (subscriptions (snd (remove_subscription c s w)))) =
              length (subscriptions w)) \<and>
         (\<not> next_call_ok w \<longrightarrow>
            \<not> fst (remove_subscription c s w) \<and>
            subscriptions (snd (remove_subscription c s w)) = subscriptions w) \<and>
         (ascii s \<longrightarrow> upper w s = map upper_char s)"
proof (cases "external_call w")
  case (Pair r w1)
  then have sub: "subscriptions w1 = subscriptions w"
    by (auto simp: external_call_def split: list.splits)
  have len: "Suc (length (filter (\<lambda>r. r \<noteq> x) xs)) = length xs"
    if "distinct xs" "x \<in> set xs" for x :: "chat \<times> string" and xs
    using that by (induction xs) (auto simp: filter_other_rows)
  have up: "ascii s \<longrightarrow> upper w s = map upper_char s"
    by (simp add: upper_def upper_ascii_def)
  show ?thesis
  proof (cases r)
    case None
    with Pair have ok: "next_call_ok w"
      by (auto simp: external_call_def next_call_ok_def split: list.splits)
    from None Pair sub assms up len[OF assms, of "(c, upper w s)"] ok show ?thesis
      by (auto simp: remove_subscription_def Let_def count_row_distinct filter_other_rows)
  next
    case (Some e)
    with Pair have nok: "\<not> next_call_ok w"
      by (auto simp: external_call_def next_call_ok_def split: list.splits)
    from Some Pair sub up nok show ?thesis
      by (auto simp: remove_subscription_def on_exception_tables)
  qed
qed

theorem remove_subscription_witness:
  "remove_subscription 7 ''btc'' (empty_store\<lparr>subscriptions := [(7, ''BTC''), (7, ''ETH'')]\<rparr>) =
     (True, empty_store\<lparr>subscriptions := [(7, ''ETH'')]\<rparr>) \<and>
   remove_subscription 7 ''usd'' (empty_store\<lparr>subscriptions := [(7, ''BTC''), (7, ''ETH'')]\<rparr>) =
     (False, empty_store\<lparr>subscriptions := [(7, ''BTC''), (7, ''ETH'')]\<rparr>)"
proof -
  have d: "distinct (subscriptions (empty_store\<lparr>subscriptions := [(7, ''BTC''), (7, ''ETH'')]\<rparr>))"
    by simp
  from remove_subscription_true_iff_deleted[OF d, of 7 "''btc''"]
    remove_subscription_true_iff_deleted[OF d, of 7 "''usd''"]
  show ?thesis
    by (simp add: remove_subscription_def external_call_def empty_store_def upper_def
        upper_ascii_def upper_char_def ascii_def less_char_def)
qed

section \<open>Timers armed by the commands: the claims\<close>

text \<open>
  Claim C1.  The claim says that enabling the daily notifications cancels an existing
  daily timer of the chat first.  \<open>autoupdate_cmd\<close> with \<open>on\<close> calls \<open>run_daily\<close>
  without removing the jobs named \<open>daily_<chat>\<close> (as \<open>setinterval_cmd\<close> does for its
  jobs): after \<open>settime 09:00\<close> and two \<open>autoupdate on\<close> commands, with no failure
  anywhere, the queue holds two daily timers of chat 1.
\<close>

theorem autoupdate_on_twice_arms_two_timers:
  "job_queue (main [SettimeCmd 1 [''09:00''], AutoupdateCmd 1 [''on''], AutoupdateCmd 1 [''on'']]
                empty_world) =
     Some [\<lparr>job_name = ''daily_1'', job_chat_id = 1, job_trigger = Daily (9, 0)\<rparr>,
           \<lparr>job_name = ''daily_1'', job_chat_id = 1, job_trigger = Daily (9, 0)\<rparr>]"
  by code_simp

text \<open>
  What \<open>setinterval\<close> does within the range of the dates.  With the scheduler running
  and no failure of an external call, \<open>setinterval\<close> with a positive number of minutes
  whose first run is a date that exists removes every interval timer of the chat and arms
  a new one with that interval: afterwards the queue holds exactly one job named
  \<open>interval_<chat>\<close>, the new one, and every job of another name is still there.  Its
  first run is the one the scheduler computes, a whole interval after the call as soon
  as any time has passed between the two readings of the clock.
\<close>

lemma setinterval_rearms_one_timer:
  assumes "fault_free w" and "running w" and "job_queue w = Some jobs"
    and "py_int w a = Some minutes" and "0 < minutes" and "minutes < 1440000000000"
    and "first_run w (minutes * 60) 0 = Some run"
  shows "job_queue (setinterval_cmd c (a # args) w) =
           Some (filter (\<lambda>j. job_name j \<noteq> interval_name c) jobs @
                 [\<lparr>job_name = interval_name c, job_chat_id = c,
                   job_trigger = Repeating (minutes * 60) 0 (Some run)\<rparr>])"
    and "filter (\<lambda>j. job_name j = interval_name c)
           (the (job_queue (setinterval_cmd c (a # args) w))) =
           [\<lparr>job_name = interval_name c, job_chat_id = c,
             job_trigger = Repeating (minutes * 60) 0 (Some run)\<rparr>]"
    and "filter (\<lambda>j. job_name j \<noteq> interval_name c)
           (the (job_queue (setinterval_cmd c (a # args) w))) =
           filter (\<lambda>j. job_name j \<noteq> interval_name c) jobs"
    and "fault_free (setinterval_cmd c (a # args) w)"
    and "running (setinterval_cmd c (a # args) w)"
proof -
  have td: "timedelta_minutes minutes = Some (minutes * 60)"
    using assms(5,6) by (rule timedelta_minutes_in_range)
  have fr: "first_run w' (minutes * 60) 0 = Some run"
    if "clock w' = clock w" "latency w' = latency w" for w'
    using first_run_cong[OF that] assms(7) by simp
  let ?w1 = "upsert_interval c (Some minutes) True w"
  have u: "fault_free ?w1" "job_queue ?w1 = Some jobs" "running ?w1" "clock ?w1 = clock w"
    "latency ?w1 = latency w"
    using assms(1,2,3)
    by (simp_all add: upsert_interval_def on_exception_def log_failure_def log_error_to_db_def
        free_simps)
  let ?w2 = "?w1\<lparr>faults := tl (faults ?w1), outbox := outbox ?w1 @ [(c, IntervalEnabled minutes)]\<rparr>"
  have sm: "send_message c (IntervalEnabled minutes) ?w1 = (None, ?w2)"
    using u(1) by (rule send_message_free)
  let ?w3 = "?w2\<lparr>job_queue := Some (remove_jobs_by_name (interval_name c) jobs)\<rparr>"
  have rr: "run_repeating ?w3 (minutes * 60) 0 c (interval_name c)
      (remove_jobs_by_name (interval_name c) jobs) =
      Some (remove_jobs_by_name (interval_name c) jobs @
            [\<lparr>job_name = interval_name c, job_chat_id = c,
              job_trigger = Repeating (minutes * 60) 0 (Some run)\<rparr>])"
    using u(3,4,5) assms(5) fr[of ?w3]
    by (simp add: run_repeating_def interval_step_def)
  have all: "setinterval_cmd c (a # args) w =
      ?w3\<lparr>job_queue := Some (remove_jobs_by_name (interval_name c) jobs @
            [\<lparr>job_name = interval_name c, job_chat_id = c,
              job_trigger = Repeating (minutes * 60) 0 (Some run)\<rparr>])\<rparr>"
    using assms(4,5) td sm u(2) rr
    by (simp add: setinterval_cmd_def Let_def)
  show q: "job_queue (setinterval_cmd c (a # args) w) =
      Some (filter (\<lambda>j. job_name j \<noteq> interval_name c) jobs @
            [\<lparr>job_name = interval_name c, job_chat_id = c,
              job_trigger = Repeating (minutes * 60) 0 (Some run)\<rparr>])"
    unfolding all by (simp add: remove_jobs_by_name_def)
  show "filter (\<lambda>j. job_name j = interval_name c)
      (the (job_queue (setinterval_cmd c (a # args) w))) =
      [\<lparr>job_name = interval_name c, job_chat_id = c,
        job_trigger = Repeating (minutes * 60) 0 (Some run)\<rparr>]"
    unfolding q by simp
  show "filter (\<lambda>j. job_name j \<noteq> interval_name c)
      (the (job_queue (setinterval_cmd c (a # args) w))) =
      filter (\<lambda>j. job_name j \<noteq> interval_name c) jobs"
    unfolding q by simp
  show "fault_free (setinterval_cmd c (a # args) w)"
    unfolding all using u(1) by (simp add: free_simps)
  show "running (setinterval_cmd c (a # args) w)"
    unfolding all using u(3) by simp
qed

text \<open>
  Claim C3.  The claim says that \<open>setinterval\<close> with a positive number of minutes
  cancels the interval timer of the chat and arms a new one whose first fire has zero
  delay.  \<open>setinterval_cmd\<close> tests \<open>minutes <= 0\<close> and nothing else.  For
  \<open>setinterval 30\<close> the timer is armed, but with \<open>first=0\<close> its first run comes
  \<open>1800\<close> seconds after the call.  For \<open>setinterval 5000000000\<close> after it, the handler
  writes to the store, replies that the notifications are enabled, removes the timer of
  the chat and then fails in \<open>run_repeating\<close>, whose first run would be a date after
  the year \<open>9999\<close>: the chat is told of a wrong interval and is left with no timer at
  all, where the store still holds an enabled interval (the old one when the column is
  a 32-bit integer, the new one when the column holds it).
\<close>

theorem setinterval_late_first_run_and_lost_timer:
  "job_queue (main [SetintervalCmd 1 [''30'']] empty_world) =
     Some [\<lparr>job_name = ''interval_1'', job_chat_id = 1,
            job_trigger = Repeating 1800 0 (Some 1800)\<rparr>] \<and>
   job_queue (main [SetintervalCmd 1 [''30''], SetintervalCmd 1 [''5000000000'']] empty_world) =
     Some [] \<and>
   outbox (main [SetintervalCmd 1 [''30''], SetintervalCmd 1 [''5000000000'']] empty_world) =
     [(1, IntervalEnabled 30), (1, IntervalEnabled 5000000000), (1, BadInterval)] \<and>
   intervals (main [SetintervalCmd 1 [''30''], SetintervalCmd 1 [''5000000000'']] empty_world) =
     [(1, 30, True)] \<and>
   job_queue (main [SetintervalCmd 1 [''30''], SetintervalCmd 1 [''5000000000'']]
                (empty_world\<lparr>minutes_in := (\<lambda>m. True)\<rparr>)) =
     Some [] \<and>
   intervals (main [SetintervalCmd 1 [''30''], SetintervalCmd 1 [''5000000000'']]
                (empty_world\<lparr>minutes_in := (\<lambda>m. True)\<rparr>)) =
     [(1, 5000000000, True)]"
  by code_simp

section \<open>Start-up rehydration: the claim\<close>

lemma first_run_after_one_interval:
  assumes "0 < latency w" and "latency w \<le> step * 1000000" and "first_run w step 0 \<noteq> None"
  shows "first_run w step 0 = Some step"
proof -
  have "latency w div (- (step * 1000000)) = - 1"
    using assms(1,2) by (intro div_pos_neg_trivial) simp_all
  then have "- latency w div (step * 1000000) = - 1"
    using div_minus_minus[of "latency w" "- (step * 1000000)"] by simp
  with assms show ?thesis
    by (simp add: first_run_def Let_def split: if_splits)
qed

lemma schedule_pending_rehydrated:
  assumes "clock w' = clock w" and "latency w' = latency w" and "armable w"
  shows "schedule_pending w'
           (map (\<lambda>r. daily_timer (fst r) (the (fst (snd r))))
              (filter (\<lambda>r. snd (snd r)) (schedules w)) @
            map (\<lambda>r. pending_timer (fst r) (fst (snd r)))
              (filter (\<lambda>r. snd (snd r)) (intervals w))) =
         Some (rehydrated_timers w)"
proof -
  have fr: "first_run w' step first = first_run w step first" for step first
    using assms(1,2) by (rule first_run_cong)
  have it: "interval_timer w' = interval_timer w"
    by (intro ext) (simp add: interval_timer_def fr)
  have sd: "schedule_pending w'
      (map (\<lambda>r. daily_timer (fst r) (the (fst (snd r)))) (filter (\<lambda>r. snd (snd r)) (schedules w))) =
      Some (map (\<lambda>r. daily_timer (fst r) (the (fst (snd r))))
              (filter (\<lambda>r. snd (snd r)) (schedules w)))"
    by (rule schedule_pending_daily)
  have ok: "\<forall>r\<in>set (filter (\<lambda>r. snd (snd r)) (intervals w)).
      first_run w' (fst (snd r) * 60) 0 \<noteq> None"
    using assms(3) by (auto simp: armable_def fr)
  have si: "schedule_pending w'
      (map (\<lambda>r. pending_timer (fst r) (fst (snd r))) (filter (\<lambda>r. snd (snd r)) (intervals w))) =
      Some (map (\<lambda>r. interval_timer w' (fst r) (fst (snd r)))
              (filter (\<lambda>r. snd (snd r)) (intervals w)))"
    using ok by (rule schedule_pending_intervals)
  show ?thesis
    unfolding schedule_pending_append sd si it by (simp add: rehydrated_timers_def)
qed

lemma startup_state:
  assumes "fault_free w" and "job_queue w = Some []" and "\<not> running w" and "armable w"
  shows "start_job_queue (on_startup w) =
           Some (w\<lparr>faults := tl (tl (faults w)), logger := logger w @ [LogInfoLoaded],
                   job_queue := Some (rehydrated_timers w), running := True\<rparr>)"
proof -
  let ?rows = "map (\<lambda>r. (fst r, fst (snd r))) (filter (\<lambda>r. snd (snd r)) (schedules w))"
  let ?rows_i = "map (\<lambda>r. (fst r, fst (snd r))) (filter (\<lambda>r. snd (snd r)) (intervals w))"
  let ?daily = "map (\<lambda>r. daily_timer (fst r) (the (snd r))) ?rows"
  let ?pending = "map (\<lambda>r. pending_timer (fst r) (snd r)) ?rows_i"
  let ?w1 = "w\<lparr>faults := tl (faults w)\<rparr>"
  have d: "restore_daily ?rows ?w1 = Inr (?w1\<lparr>job_queue := Some ([] @ ?daily)\<rparr>)"
    using assms(2,4) by (intro restore_daily_ok) (auto simp: armable_def)
  let ?w2 = "?w1\<lparr>job_queue := Some ?daily\<rparr>"
  let ?w3 = "?w2\<lparr>faults := tl (faults ?w2)\<rparr>"
  have i: "restore_intervals ?rows_i ?w3 = Inr (?w3\<lparr>job_queue := Some (?daily @ ?pending)\<rparr>)"
    using assms(3,4) by (intro restore_intervals_ok) (auto simp: armable_def)
  let ?jobs = "map (\<lambda>r. daily_timer (fst r) (the (fst (snd r))))
                 (filter (\<lambda>r. snd (snd r)) (schedules w)) @
               map (\<lambda>r. pending_timer (fst r) (fst (snd r)))
                 (filter (\<lambda>r. snd (snd r)) (intervals w))"
  have os: "on_startup w =
      w\<lparr>faults := tl (tl (faults w)), logger := logger w @ [LogInfoLoaded],
        job_queue := Some ?jobs\<rparr>"
    using assms(1) d i
    by (simp add: on_startup_def free_simps comp_def)
  let ?w5 = "w\<lparr>faults := tl (tl (faults w)), logger := logger w @ [LogInfoLoaded],
        job_queue := Some ?jobs\<rparr>"
  have sp: "schedule_pending ?w5 ?jobs = Some (rehydrated_timers w)"
    using _ _ assms(4) by (rule schedule_pending_rehydrated) simp_all
  show ?thesis
    unfolding os start_job_queue_def by (simp add: sp)
qed

text \<open>
  Claim C7.  \<open>main\<close> runs \<open>on_startup\<close> and starts the job queue before it dispatches
  anything.  At the start of the process (the queue present and empty, its scheduler not
  yet running), with no failure of the two queries and every enabled row one that can be
  armed (a daily row with a time, an interval row with a positive number of minutes whose
  first run is a date that exists), the queue then holds exactly the timers the store
  calls for: one daily timer per enabled row of \<open>schedules\<close>, at the stored time, and one
  interval timer per enabled row of \<open>intervals\<close>, with the stored minutes as its
  interval, and nothing else.  The tables are as they were and nothing is sent.
\<close>

theorem startup_rehydrates_enabled_schedules:
  assumes "fault_free w" and "job_queue w = Some []" and "\<not> running w" and "armable w"
  shows "job_queue (main [] w) =
           Some (map (\<lambda>r. \<lparr>job_name = daily_name (fst r), job_chat_id = fst r,
                            job_trigger = Daily (the (fst (snd r)))\<rparr>)
                   (filter (\<lambda>r. snd (snd r)) (schedules w)) @
                 map (\<lambda>r. \<lparr>job_name = interval_name (fst r), job_chat_id = fst r,
                            job_trigger = Repeating (fst (snd r) * 60) 0
                                            (first_run w (fst (snd r) * 60) 0)\<rparr>)
                   (filter (\<lambda>r. snd (snd r)) (intervals w))) \<and>
         (\<forall>j. j \<in> set (the (job_queue (main [] w))) \<longleftrightarrow>
            (\<exists>c t. (c, Some t, True) \<in> set (schedules w) \<and>
                   j = \<lparr>job_name = daily_name c, job_chat_id = c, job_trigger = Daily t\<rparr>) \<or>
            (\<exists>c m. (c, m, True) \<in> set (intervals w) \<and>
                   j = \<lparr>job_name = interval_name c, job_chat_id = c,
                        job_trigger = Repeating (m * 60) 0 (first_run w (m * 60) 0)\<rparr>)) \<and>
         length (the (job_queue (main [] w))) =
           length (filter (\<lambda>r. snd (snd r)) (schedules w)) +
           length (filter (\<lambda>r. snd (snd r)) (intervals w)) \<and>
         (0 < latency w \<and> latency w \<le> 60000000 \<longrightarrow>
            (\<forall>c m. (c, m, True) \<in> set (intervals w) \<longrightarrow>
                first_run w (m * 60) 0 = Some (m * 60))) \<and>
         running (main [] w) \<and> schedules (main [] w) = schedules w \<and>
         intervals (main [] w) = intervals w \<and> outbox (main [] w) = outbox w \<and>
         escaped (main [] w) = escaped w \<and>
         (\<forall>events. main events w = fold dispatch events (main [] w))"
proof -
  note st = startup_state[OF assms]
  let ?w' = "w\<lparr>faults := tl (tl (faults w)), logger := logger w @ [LogInfoLoaded],
                job_queue := Some (rehydrated_timers w), running := True\<rparr>"
  have m: "main events w = fold dispatch events ?w'" for events
    by (simp add: main_def st)
  have m0: "main [] w = ?w'"
    by (simp add: m)
  have q: "job_queue (main [] w) = Some (rehydrated_timers w)"
    by (simp add: m0)
  have dm: "j \<in> (\<lambda>r. daily_timer (fst r) (the (fst (snd r)))) ` {r \<in> set (schedules w). snd (snd r)} \<longleftrightarrow>
      (\<exists>c t. (c, Some t, True) \<in> set (schedules w) \<and> j = daily_timer c t)" for j
  proof
    assume "j \<in> (\<lambda>r. daily_timer (fst r) (the (fst (snd r)))) ` {r \<in> set (schedules w). snd (snd r)}"
    then obtain r where r: "r \<in> set (schedules w)" "snd (snd r)"
      "j = daily_timer (fst r) (the (fst (snd r)))" by auto
    obtain c topt en where re: "r = (c, topt, en)"
      by (rule prod_cases3)
    from assms(4) r(1,2) re obtain t where t: "topt = Some t"
      by (auto simp: armable_def)
    from r re t have "(c, Some t, True) \<in> set (schedules w)" "j = daily_timer c t"
      by simp_all
    then show "\<exists>c t. (c, Some t, True) \<in> set (schedules w) \<and> j = daily_timer c t" by blast
  next
    assume "\<exists>c t. (c, Some t, True) \<in> set (schedules w) \<and> j = daily_timer c t"
    then obtain c t where "(c, Some t, True) \<in> set (schedules w)" "j = daily_timer c t" by blast
    then show "j \<in> (\<lambda>r. daily_timer (fst r) (the (fst (snd r)))) ` {r \<in> set (schedules w). snd (snd r)}"
      by (intro image_eqI[where x = "(c, Some t, True)"]) simp_all
  qed
  have im: "j \<in> (\<lambda>r. interval_timer w (fst r) (fst (snd r))) ` {r \<in> set (intervals w). snd (snd r)} \<longleftrightarrow>
      (\<exists>c m. (c, m, True) \<in> set (intervals w) \<and> j = interval_timer w c m)" for j
  proof
    assume "j \<in> (\<lambda>r. interval_timer w (fst r) (fst (snd r))) ` {r \<in> set (intervals w). snd (snd r)}"
    then obtain r where r: "r \<in> set (intervals w)" "snd (snd r)"
      "j = interval_timer w (fst r) (fst (snd r))" by auto
    obtain c m en where re: "r = (c, m, en)"
      by (rule prod_cases3)
    from r re have "(c, m, True) \<in> set (intervals w)" "j = interval_timer w c m"
      by simp_all
    then show "\<exists>c m. (c, m, True) \<in> set (intervals w) \<and> j = interval_timer w c m" by blast
  next
    assume "\<exists>c m. (c, m, True) \<in> set (intervals w) \<and> j = interval_timer w c m"
    then obtain c m where "(c, m, True) \<in> set (intervals w)" "j = interval_timer w c m" by blast
    then show "j \<in> (\<lambda>r. interval_timer w (fst r) (fst (snd r))) ` {r \<in> set (intervals w). snd (snd r)}"
      by (intro image_eqI[where x = "(c, m, True)"]) simp_all
  qed
  have mem: "j \<in> set (rehydrated_timers w) \<longleftrightarrow>
            (\<exists>c t. (c, Some t, True) \<in> set (schedules w) \<and> j = daily_timer c t) \<or>
            (\<exists>c m. (c, m, True) \<in> set (intervals w) \<and> j = interval_timer w c m)" for j
    using dm[of j] im[of j] by (simp add: rehydrated_timers_def)
  have len: "length (rehydrated_timers w) =
           length (filter (\<lambda>r. snd (snd r)) (schedules w)) +
           length (filter (\<lambda>r. snd (snd r)) (intervals w))"
    by (simp add: rehydrated_timers_def)
  have one: "first_run w (m * 60) 0 = Some (m * 60)"
    if l: "0 < latency w \<and> latency w \<le> 60000000" and r: "(c, m, True) \<in> set (intervals w)" for c m
  proof -
    from assms(4) r have p: "0 < m" "first_run w (m * 60) 0 \<noteq> None"
      by (auto simp: armable_def)
    from l p(1) have "latency w \<le> m * 60 * 1000000"
      by simp
    with l p(2) show ?thesis
      by (intro first_run_after_one_interval) simp_all
  qed
  show ?thesis
  proof (intro conjI allI impI)
    show "job_queue (main [] w) =
           Some (map (\<lambda>r. \<lparr>job_name = daily_name (fst r), job_chat_id = fst r,
                            job_trigger = Daily (the (fst (snd r)))\<rparr>)
                   (filter (\<lambda>r. snd (snd r)) (schedules w)) @
                 map (\<lambda>r. \<lparr>job_name = interval_name (fst r), job_chat_id = fst r,
                            job_trigger = Repeating (fst (snd r) * 60) 0
                                            (first_run w (fst (snd r) * 60) 0)\<rparr>)
                   (filter (\<lambda>r. snd (snd r)) (intervals w)))"
      by (simp add: q rehydrated_timers_def daily_timer_def interval_timer_def)
    show "j \<in> set (the (job_queue (main [] w))) \<longleftrightarrow>
            (\<exists>c t. (c, Some t, True) \<in> set (schedules w) \<and>
                   j = \<lparr>job_name = daily_name c, job_chat_id = c, job_trigger = Daily t\<rparr>) \<or>
            (\<exists>c m. (c, m, True) \<in> set (intervals w) \<and>
                   j = \<lparr>job_name = interval_name c, job_chat_id = c,
                        job_trigger = Repeating (m * 60) 0 (first_run w (m * 60) 0)\<rparr>)" for j
      using mem[of j] by (simp add: q daily_timer_def interval_timer_def)
    show "length (the (job_queue (main [] w))) =
           length (filter (\<lambda>r. snd (snd r)) (schedules w)) +
           length (filter (\<lambda>r. snd (snd r)) (intervals w))"
      by (simp add: q len)
    show "first_run w (m * 60) 0 = Some (m * 60)"
      if "0 < latency w \<and> latency w \<le> 60000000" "(c, m, True) \<in> set (intervals w)" for c m
      using that by (rule one)
    show "running (main [] w)" "schedules (main [] w) = schedules w"
      "intervals (main [] w) = intervals w" "outbox (main [] w) = outbox w"
      "escaped (main [] w) = escaped w"
      by (simp_all add: m0)
    show "main events w = fold dispatch events (main [] w)" for events
      by (simp add: m)
  qed
qed

theorem startup_rehydrates_witness:
  "job_queue (main [] (empty_world\<lparr>schedules := [(1, Some (8, 0), True)],
                         intervals := [(2, 15, True)]\<rparr>)) =
     Some [\<lparr>job_name = ''daily_1'', job_chat_id = 1, job_trigger = Daily (8, 0)\<rparr>,
           \<lparr>job_name = ''interval_2'', job_chat_id = 2,
            job_trigger = Repeating 900 0 (Some 900)\<rparr>]"
proof -
  let ?w = "empty_world\<lparr>schedules := [(1, Some (8, 0), True)], intervals := [(2, 15, True)]\<rparr>"
  have fr: "first_run ?w (15 * 60) 0 = Some 900"
    by code_simp
  have h: "fault_free ?w" "job_queue ?w = Some []" "\<not> running ?w" "armable ?w"
    using fr by (simp_all add: fault_free_def empty_world_def armable_def)
  have n: "daily_name 1 = ''daily_1''" "interval_name 2 = ''interval_2''"
    by code_simp+
  have s: "schedules ?w = [(1, Some (8, 0), True)]" "intervals ?w = [(2, 15, True)]"
    by simp_all
  note t = startup_rehydrates_enabled_schedules[OF h]
  from t have "job_queue (main [] ?w) =
      Some (map (\<lambda>r. \<lparr>job_name = daily_name (fst r), job_chat_id = fst r,
                       job_trigger = Daily (the (fst (snd r)))\<rparr>)
              (filter (\<lambda>r. snd (snd r)) (schedules ?w)) @
            map (\<lambda>r. \<lparr>job_name = interval_name (fst r), job_chat_id = fst r,
                       job_trigger = Repeating (fst (snd r) * 60) 0
                                       (first_run ?w (fst (snd r) * 60) 0)\<rparr>)
              (filter (\<lambda>r. snd (snd r)) (intervals ?w)))"
    by (rule conjunct1)
  then show ?thesis
    using fr by (simp add: s n)
qed

section \<open>Scheduled delivery: the claim\<close>

lemma world_external_call [simp]:
  "outbox (snd (external_call w)) = outbox w"
  "job_queue (snd (external_call w)) = job_queue w"
  "subscriptions (snd (external_call w)) = subscriptions w"
  "intervals (snd (external_call w)) = intervals w"
  for w :: world
  by (simp_all add: external_call_def split: list.splits)

lemma world_on_exception [simp]:
  "outbox (on_exception f x e w) = outbox w"
  "job_queue (on_exception f x e w) = job_queue w"
  "subscriptions (on_exception f x e w) = subscriptions w"
  "intervals (on_exception f x e w) = intervals w"
  for w :: world
  by (simp_all add: on_exception_def log_failure_def log_error_to_db_def split_def
      split: option.splits)

lemma world_store_ops [simp]:
  "outbox (snd (list_subscriptions c w)) = outbox w"
  "job_queue (snd (list_subscriptions c w)) = job_queue w"
  "subscriptions (snd (list_subscriptions c w)) = subscriptions w"
  "intervals (snd (list_subscriptions c w)) = intervals w"
  "outbox (snd (get_schedule c w)) = outbox w"
  "job_queue (snd (get_schedule c w)) = job_queue w"
  "subscriptions (snd (get_schedule c w)) = subscriptions w"
  "intervals (snd (get_schedule c w)) = intervals w"
  "outbox (upsert_schedule c t en w) = outbox w"
  "job_queue (upsert_schedule c t en w) = job_queue w"
  "subscriptions (upsert_schedule c t en w) = subscriptions w"
  "intervals (upsert_schedule c t en w) = intervals w"
  "outbox (upsert_interval c m en w) = outbox w"
  "job_queue (upsert_interval c m en w) = job_queue w"
  "subscriptions (upsert_interval c m en w) = subscriptions w"
  for w :: world
  by (simp_all add: list_subscriptions_def get_schedule_def upsert_schedule_def
      upsert_interval_def split_def split: option.splits)

lemma filter_upsert_row_other:
  "filter (\<lambda>r. fst r \<noteq> k) (upsert_row k v rows) = filter (\<lambda>r. fst r \<noteq> k) rows"
proof -
  have "filter (\<lambda>r. fst r \<noteq> k) (map (\<lambda>r. if fst r = k then (k, v) else r) rows) =
      filter (\<lambda>r. fst r \<noteq> k) rows"
    by (induction rows) auto
  then show ?thesis
    by (simp add: upsert_row_def)
qed

lemma other_schedules_upsert_schedule:
  "filter (\<lambda>r. fst r \<noteq> c) (schedules (upsert_schedule c t en w)) =
     filter (\<lambda>r. fst r \<noteq> c) (schedules w)"
  by (simp add: upsert_schedule_def split_def filter_upsert_row_other split: option.splits)

lemma other_intervals_upsert_interval:
  "filter (\<lambda>r. fst r \<noteq> c) (intervals (upsert_interval c None en w)) =
     filter (\<lambda>r. fst r \<noteq> c) (intervals w)"
proof -
  have "filter (\<lambda>r. fst r \<noteq> c) (map (\<lambda>r. if fst r = c then (fst r, fst (snd r), en) else r) rows) =
      filter (\<lambda>r. fst r \<noteq> c) rows" for rows :: "(chat \<times> int \<times> bool) list"
    by (induction rows) auto
  moreover have "intervals (snd (external_call w)) = intervals w"
    by (simp add: external_call_def split: list.splits)
  moreover have "intervals (on_exception f x e w') = intervals w'" for f x e and w' :: "'a store_scheme"
    by (rule on_exception_tables)
  ultimately show ?thesis
    by (simp add: upsert_interval_def split_def split: option.splits)
qed

lemma send_rates_empty:
  assumes q: "job_queue w = Some jobs" and i: "i < length jobs"
    and nm: "name_chat_id w (job_name (jobs ! i)) = Some c"
    and em: "fst (list_subscriptions c w) = []"
  shows "job_queue (send_rates i w) = Some (take i jobs @ drop (Suc i) jobs)"
    and "outbox (send_rates i w) = outbox w"
    and "subscriptions (send_rates i w) = subscriptions w"
    and "filter (\<lambda>r. fst r \<noteq> c) (schedules (send_rates i w)) =
           filter (\<lambda>r. fst r \<noteq> c) (schedules w)"
    and "filter (\<lambda>r. fst r \<noteq> c) (intervals (send_rates i w)) =
           filter (\<lambda>r. fst r \<noteq> c) (intervals w)"
  using q i nm em
  by (simp_all add: send_rates_def split_def Let_def schedule_removal_def
      other_schedules_upsert_schedule other_intervals_upsert_interval)

lemma lines_text:
  "lines \<noteq> [] \<Longrightarrow> CHR 0x0A # join_lines lines = concat (map (\<lambda>l. CHR 0x0A # l) lines)"
  by (induction lines rule: join_lines.induct) simp_all

text \<open>
  Claim C2, as stated, fails when a storage access of the clean-up fails: the failure is
  caught in the store function, and \<open>send_rates\<close> goes on.  In the scenario of the
  specification, with the update of the daily schedule failing, the fire removes its
  timer and the daily schedule stays enabled in the store.
\<close>

theorem send_rates_failed_cleanup_counterexample:
  "fst (list_subscriptions 5 failing_cleanup_world) = [] \<and>
   schedules failing_cleanup_world = [(5, Some (9, 0), True)] \<and>
   job_queue failing_cleanup_world =
     Some [\<lparr>job_name = ''daily_5'', job_chat_id = 5, job_trigger = Daily (9, 0)\<rparr>] \<and>
   schedules (send_rates 0 failing_cleanup_world) = [(5, Some (9, 0), True)] \<and>
   job_queue (send_rates 0 failing_cleanup_world) = Some []"
  by code_simp

text \<open>
  Claim C2, amended.  A timer of chat \<open>c\<close> that the bot armed (its name is
  \<open>daily_<c>\<close> or \<open>interval_<c>\<close>) fires, at position \<open>i\<close> of the queue.  When
  \<open>list_subscriptions\<close> returns the empty list, \<open>send_rates\<close> removes the firing job
  from the queue and no other, sends nothing, and leaves the subscriptions and the
  schedules of the other chats as they are; when, in addition, no storage access fails
  and the store takes back the chat's daily schedule, no enabled daily and no enabled
  interval schedule of the chat is left in the store.  When the list is not empty and no
  external call fails, it sends one message to the chat, the report: the header with the
  current time and a line for every subscription in sorted order; it leaves the schedules
  and the queue as they are.
\<close>

theorem send_rates_cleans_up_or_reports:
  assumes "job_queue w = Some jobs" and "i < length jobs"
    and "job_name (jobs ! i) = daily_name c \<or> job_name (jobs ! i) = interval_name c"
  shows "(fst (list_subscriptions c w) = [] \<longrightarrow>
            job_queue (send_rates i w) = Some (take i jobs @ drop (Suc i) jobs) \<and>
            outbox (send_rates i w) = outbox w \<and>
            subscriptions (send_rates i w) = subscriptions w \<and>
            filter (\<lambda>r. fst r \<noteq> c) (schedules (send_rates i w)) =
              filter (\<lambda>r. fst r \<noteq> c) (schedules w) \<and>
            filter (\<lambda>r. fst r \<noteq> c) (intervals (send_rates i w)) =
              filter (\<lambda>r. fst r \<noteq> c) (intervals w)) \<and>
         (fault_free w \<and> schedule_rewritable c w \<and> fst (list_subscriptions c w) = [] \<longrightarrow>
            (\<forall>r\<in>set (schedules (send_rates i w)). fst r = c \<longrightarrow> \<not> snd (snd r)) \<and>
            (\<forall>r\<in>set (intervals (send_rates i w)). fst r = c \<longrightarrow> \<not> snd (snd r))) \<and>
         (fault_free w \<and> fst (list_subscriptions c w) \<noteq> [] \<longrightarrow>
            fst (list_subscriptions c w) =
              sort (map snd (filter (\<lambda>r. fst r = c) (subscriptions w))) \<and>
            outbox (send_rates i w) =
              outbox w @
              [(c, RatesText (header_text @ now_text w @ '':'' @
                     concat (map (\<lambda>s. CHR 0x0A # line_of w s) (fst (list_subscriptions c w)))))] \<and>
            schedules (send_rates i w) = schedules w \<and>
            intervals (send_rates i w) = intervals w \<and>
            job_queue (send_rates i w) = Some jobs)"
proof (intro conjI impI)
  have nm: "name_chat_id w (job_name (jobs ! i)) = Some c"
    using assms(3) by (auto simp: name_chat_id_daily name_chat_id_interval)
  {
    assume em: "fst (list_subscriptions c w) = []"
    from send_rates_empty[OF assms(1,2) nm em]
    show "job_queue (send_rates i w) = Some (take i jobs @ drop (Suc i) jobs)"
      and "outbox (send_rates i w) = outbox w"
      and "subscriptions (send_rates i w) = subscriptions w"
      and "filter (\<lambda>r. fst r \<noteq> c) (schedules (send_rates i w)) =
            filter (\<lambda>r. fst r \<noteq> c) (schedules w)"
      and "filter (\<lambda>r. fst r \<noteq> c) (intervals (send_rates i w)) =
            filter (\<lambda>r. fst r \<noteq> c) (intervals w)"
      by simp_all
  }
  {
    assume a: "fault_free w \<and> schedule_rewritable c w \<and> fst (list_subscriptions c w) = []"
    then have "sort (chat_symbols c w) = []"
      using list_subscriptions_free[of w c] by auto
    then have em: "chat_symbols c w = []"
      by (simp only: sort_Nil_iff)
    from a send_rates_cleans_up[OF _ assms(1,2) nm em]
    have "\<not> daily_enabled c (send_rates i w)" "\<not> interval_enabled c (send_rates i w)"
      by simp_all
    then show "\<forall>r\<in>set (schedules (send_rates i w)). fst r = c \<longrightarrow> \<not> snd (snd r)"
      and "\<forall>r\<in>set (intervals (send_rates i w)). fst r = c \<longrightarrow> \<not> snd (snd r)"
      by (auto simp: daily_enabled_def interval_enabled_def)
  }
  {
    assume a: "fault_free w \<and> fst (list_subscriptions c w) \<noteq> []"
    then have ls: "fst (list_subscriptions c w) = sort (chat_symbols c w)"
      using list_subscriptions_free[of w c] by auto
    with a have ne: "chat_symbols c w \<noteq> []"
      by (simp add: sort_Nil_iff)
    from ne have lines: "map (line_of w) (sort (chat_symbols c w)) \<noteq> []"
      by (simp add: sort_Nil_iff)
    have rt: "report_text (now_text w) (map (line_of w) (sort (chat_symbols c w))) =
        header_text @ now_text w @ '':'' @
        concat (map (\<lambda>s. CHR 0x0A # line_of w s) (sort (chat_symbols c w)))"
      using lines_text[OF lines] by (simp add: report_text_def comp_def)
    from a send_rates_reports[OF _ assms(1,2) nm ne]
    have r: "outbox (send_rates i w) =
        outbox w @ [(c, RatesText (report_text (now_text w) (map (line_of w) (sort (chat_symbols c w)))))]"
      "schedules (send_rates i w) = schedules w" "intervals (send_rates i w) = intervals w"
      "job_queue (send_rates i w) = job_queue w"
      by simp_all
    show "fst (list_subscriptions c w) = sort (map snd (filter (\<lambda>r. fst r = c) (subscriptions w)))"
      by (simp add: ls chat_symbols_def)
    show "outbox (send_rates i w) =
        outbox w @
        [(c, RatesText (header_text @ now_text w @ '':'' @
               concat (map (\<lambda>s. CHR 0x0A # line_of w s) (fst (list_subscriptions c w)))))]"
      by (simp only: r(1) rt ls)
    show "schedules (send_rates i w) = schedules w" "intervals (send_rates i w) = intervals w"
      by (rule r)+
    show "job_queue (send_rates i w) = Some jobs"
      by (simp add: r(4) assms(1))
  }
qed

theorem send_rates_cleared_chat_witness:
  "job_queue cleared_chat_world =
     Some [\<lparr>job_name = ''daily_5'', job_chat_id = 5, job_trigger = Daily (9, 0)\<rparr>] \<and>
   schedules cleared_chat_world = [(5, Some (9, 0), True)] \<and>
   job_queue (send_rates 0 cleared_chat_world) = Some [] \<and>
   outbox (send_rates 0 cleared_chat_world) = outbox cleared_chat_world \<and>
   schedules (send_rates 0 cleared_chat_world) = [(5, Some (9, 0), False)] \<and>
   outbox (send_rates 0 subscribed_chat_world) =
     outbox subscribed_chat_world @
     [(5, RatesText (header_text @ ''2025-01-01 09:00:'' @ [CHR 0x0A] @ up_mark @
                     ''BTC +10.00%  $110.00''))]"
proof -
  let ?job = "\<lparr>job_name = ''daily_5'', job_chat_id = 5, job_trigger = Daily (9, 0)\<rparr>"
  have ff: "fault_free cleared_chat_world"
    and q: "job_queue cleared_chat_world = Some [?job]"
    and rw: "schedule_rewritable 5 cleared_chat_world"
    and ls: "fst (list_subscriptions 5 cleared_chat_world) = []"
    and sc: "schedules cleared_chat_world = [(5, Some (9, 0), True)]"
    and sc': "schedules (send_rates 0 cleared_chat_world) = [(5, Some (9, 0), False)]"
    by code_simp+
  have n: "daily_name 5 = ''daily_5''"
    by code_simp
  have i: "0 < length [?job]"
    by simp
  have nm: "job_name ([?job] ! 0) = daily_name 5 \<or> job_name ([?job] ! 0) = interval_name 5"
    by (simp add: n)
  have ff': "fault_free subscribed_chat_world"
    and q': "job_queue subscribed_chat_world = Some [?job]"
    and ls': "fst (list_subscriptions 5 subscribed_chat_world) = [''BTC'']"
    and now: "now_text subscribed_chat_world = ''2025-01-01 09:00''"
    by code_simp+
  have line: "line_of subscribed_chat_world ''BTC'' = up_mark @ ''BTC +10.00%  $110.00''"
    by code_simp
  note t = send_rates_cleans_up_or_reports[OF q i nm]
  from t ls have a: "job_queue (send_rates 0 cleared_chat_world) = Some (take 0 [?job] @ drop (Suc 0) [?job])"
    "outbox (send_rates 0 cleared_chat_world) = outbox cleared_chat_world"
    by blast+
  note t' = send_rates_cleans_up_or_reports[OF q' i nm]
  have ne: "fst (list_subscriptions 5 subscribed_chat_world) \<noteq> []"
    by (simp add: ls')
  from t' ff' ne have b: "outbox (send_rates 0 subscribed_chat_world) =
      outbox subscribed_chat_world @
      [(5, RatesText (header_text @ now_text subscribed_chat_world @ '':'' @
             concat (map (\<lambda>s. CHR 0x0A # line_of subscribed_chat_world s)
                       (fst (list_subscriptions 5 subscribed_chat_world)))))]"
    by blast
  from a(1) have a1: "job_queue (send_rates 0 cleared_chat_world) = Some []"
    by simp
  from b have b1: "outbox (send_rates 0 subscribed_chat_world) =
     outbox subscribed_chat_world @
     [(5, RatesText (header_text @ ''2025-01-01 09:00:'' @ [CHR 0x0A] @ up_mark @
                     ''BTC +10.00%  $110.00''))]"
    by (simp add: ls' now line)
  show ?thesis
    by (intro conjI) (fact q sc a1 a(2) sc' b1)+
qed

section \<open>Report lines: the claim\<close>

text \<open>
  Claim C4.  The line of a symbol in a report (\<open>rate_line\<close>, the body of the loop in
  \<open>rates_cmd\<close> and in \<open>send_rates\<close>):
  \<^item> without a current price it is the "no data" line;
  \<^item> with a prior price that is present and not zero, the quotient
    \<open>(current - prior) / prior\<close> exists, the percent change is that quotient times
    \<open>100\<close> (in floating-point arithmetic), the line starts with the marker of its sign
    and shows it with two decimals, a \<open>+\<close> in front when it is positive (the minus sign
    comes with the number), then \<open>%\<close>;
  \<^item> with a prior price that is absent or zero, the line has the neutral marker and
    \<open>0.00%\<close>, whatever the current price;
  \<^item> the marker is the up marker for a positive change, the down marker for a negative
    one, the neutral marker otherwise.
\<close>

theorem rate_line_percent_change:
  "rate_line s None y = Some (no_data_mark @ fst (symbol_name s) @ no_data_text) \<and>
   (y = Some z \<and> \<not> is_zero z \<longrightarrow>
      (\<exists>q. fdiv (fsub cur z) z = Some q \<and>
           rate_line s (Some cur) y =
             Some (trend_arrow (fmul q hundred) @ fst (symbol_name s) @ '' '' @
                   percent_text (fmul q hundred) @ ''  '' @ price_str (snd (symbol_name s)) cur))) \<and>
   (y = None \<or> (y = Some z \<and> is_zero z) \<longrightarrow>
      rate_line s (Some cur) y =
        Some (neutral_mark @ fst (symbol_name s) @ '' '' @ ''0.00%'' @ ''  '' @
              price_str (snd (symbol_name s)) cur)) \<and>
   trend_arrow pct = (if fpos pct then up_mark else if fneg pct then down_mark else neutral_mark) \<and>
   percent_text pct = (if fpos pct then ''+'' else []) @ format_2f False pct @ ''%''"
proof -
  have nz: "\<exists>q. fdiv a z = Some q" if "\<not> is_zero z" for a
    using that by (simp add: fdiv_def Let_def)
  have a: "rate_line s None y = Some (no_data_mark @ fst (symbol_name s) @ no_data_text)"
    by (simp add: rate_line_def split: prod.splits)
  have b: "\<exists>q. fdiv (fsub cur z) z = Some q \<and>
           rate_line s (Some cur) y =
             Some (trend_arrow (fmul q hundred) @ fst (symbol_name s) @ '' '' @
                   percent_text (fmul q hundred) @ ''  '' @ price_str (snd (symbol_name s)) cur)"
    if "y = Some z" "\<not> is_zero z"
  proof -
    from nz[OF that(2)] obtain q where q: "fdiv (fsub cur z) z = Some q" by blast
    with that show ?thesis
      by (simp add: rate_line_def change_of_def percent_change_def split: prod.splits)
  qed
  have c: "rate_line s (Some cur) y =
        Some (neutral_mark @ fst (symbol_name s) @ '' '' @ ''0.00%'' @ ''  '' @
              price_str (snd (symbol_name s)) cur)"
    if "y = None \<or> (y = Some z \<and> is_zero z)"
    using that by (auto simp: rate_line_def change_of_def split: prod.splits)
  from a b c show ?thesis
    by (simp add: trend_arrow_def percent_text_def)
qed

theorem rate_line_examples_witness:
  "rate_line ''BTC'' (Some (Finite 110)) (Some (Finite 100)) =
     Some (up_mark @ ''BTC +10.00%  $110.00'') \<and>
   rate_line ''BTC'' (Some (Finite 90)) (Some (Finite 100)) =
     Some (down_mark @ ''BTC -10.00%  $90.00'') \<and>
   rate_line ''BTC'' (Some (Finite 110)) (Some (Finite 0)) =
     Some (neutral_mark @ ''BTC 0.00%  $110.00'') \<and>
   rate_line ''BTC'' (Some (Finite 110)) None =
     Some (neutral_mark @ ''BTC 0.00%  $110.00'')"
proof -
  have nz: "\<not> is_zero (Finite 100)" and z: "is_zero (Finite 0)"
    by (simp_all add: is_zero_def)
  have up: "fdiv (fsub (Finite 110) (Finite 100)) (Finite 100) = Some q \<Longrightarrow>
      trend_arrow (fmul q hundred) = up_mark \<and> percent_text (fmul q hundred) = ''+10.00%''" for q
  proof -
    assume "fdiv (fsub (Finite 110) (Finite 100)) (Finite 100) = Some q"
    moreover have "fdiv (fsub (Finite 110) (Finite 100)) (Finite 100) =
        Some (Finite (3602879701896397 / 36028797018963968))"
      by code_simp
    ultimately have "q = Finite (3602879701896397 / 36028797018963968)"
      by simp
    moreover have "trend_arrow (fmul (Finite (3602879701896397 / 36028797018963968)) hundred) =
        up_mark \<and>
      percent_text (fmul (Finite (3602879701896397 / 36028797018963968)) hundred) = ''+10.00%''"
      by code_simp
    ultimately show ?thesis
      by simp
  qed
  have down: "fdiv (fsub (Finite 90) (Finite 100)) (Finite 100) = Some q \<Longrightarrow>
      trend_arrow (fmul q hundred) = down_mark \<and> percent_text (fmul q hundred) = ''-10.00%''" for q
  proof -
    assume "fdiv (fsub (Finite 90) (Finite 100)) (Finite 100) = Some q"
    moreover have "fdiv (fsub (Finite 90) (Finite 100)) (Finite 100) =
        Some (Finite (- (3602879701896397 / 36028797018963968)))"
      by code_simp
    ultimately have "q = Finite (- (3602879701896397 / 36028797018963968))"
      by simp
    moreover have "trend_arrow (fmul (Finite (- (3602879701896397 / 36028797018963968))) hundred) =
        down_mark \<and>
      percent_text (fmul (Finite (- (3602879701896397 / 36028797018963968))) hundred) = ''-10.00%''"
      by code_simp
    ultimately show ?thesis
      by simp
  qed
  have nm: "symbol_name ''BTC'' = (''BTC'', ''$'')"
    by code_simp
  have p110: "price_str ''$'' (Finite 110) = ''$110.00''"
    and p90: "price_str ''$'' (Finite 90) = ''$90.00''"
    by code_simp+
  note t1 = rate_line_percent_change[of "''BTC''" "Some (Finite 100)" "Finite 100" "Finite 110"]
  note t2 = rate_line_percent_change[of "''BTC''" "Some (Finite 100)" "Finite 100" "Finite 90"]
  note t3 = rate_line_percent_change[of "''BTC''" "Some (Finite 0)" "Finite 0" "Finite 110"]
  note t4 = rate_line_percent_change[of "''BTC''" None "Finite 0" "Finite 110"]
  from t1 nz obtain q1 where q1: "fdiv (fsub (Finite 110) (Finite 100)) (Finite 100) = Some q1"
    "rate_line ''BTC'' (Some (Finite 110)) (Some (Finite 100)) =
       Some (trend_arrow (fmul q1 hundred) @ fst (symbol_name ''BTC'') @ '' '' @
             percent_text (fmul q1 hundred) @ ''  '' @ price_str (snd (symbol_name ''BTC'')) (Finite 110))"
    by blast
  from q1(2) up[OF q1(1)] have a: "rate_line ''BTC'' (Some (Finite 110)) (Some (Finite 100)) =
      Some (up_mark @ ''BTC +10.00%  $110.00'')"
    by (simp add: nm p110)
  from t2 nz obtain q2 where q2: "fdiv (fsub (Finite 90) (Finite 100)) (Finite 100) = Some q2"
    "rate_line ''BTC'' (Some (Finite 90)) (Some (Finite 100)) =
       Some (trend_arrow (fmul q2 hundred) @ fst (symbol_name ''BTC'') @ '' '' @
             percent_text (fmul q2 hundred) @ ''  '' @ price_str (snd (symbol_name ''BTC'')) (Finite 90))"
    by blast
  from q2(2) down[OF q2(1)] have b: "rate_line ''BTC'' (Some (Finite 90)) (Some (Finite 100)) =
      Some (down_mark @ ''BTC -10.00%  $90.00'')"
    by (simp add: nm p90)
  from t3 z have "rate_line ''BTC'' (Some (Finite 110)) (Some (Finite 0)) =
      Some (neutral_mark @ fst (symbol_name ''BTC'') @ '' '' @ ''0.00%'' @ ''  '' @
            price_str (snd (symbol_name ''BTC'')) (Finite 110))"
    by blast
  then have c: "rate_line ''BTC'' (Some (Finite 110)) (Some (Finite 0)) =
      Some (neutral_mark @ ''BTC 0.00%  $110.00'')"
    by (simp add: nm p110)
  from t4 have "rate_line ''BTC'' (Some (Finite 110)) None =
      Some (neutral_mark @ fst (symbol_name ''BTC'') @ '' '' @ ''0.00%'' @ ''  '' @
            price_str (snd (symbol_name ''BTC'')) (Finite 110))"
    by blast
  then have d: "rate_line ''BTC'' (Some (Finite 110)) None =
      Some (neutral_mark @ ''BTC 0.00%  $110.00'')"
    by (simp add: nm p110)
  from a b c d show ?thesis
    by simp
qed

lemma settime_keeps_job_queue: "job_queue (settime_cmd c args w) = job_queue w"
proof -
  have ec: "job_queue (snd (external_call w')) = job_queue w'" for w' :: world
    by (simp add: external_call_def split: list.splits)
  have lf: "job_queue (log_failure f x e w') = job_queue w'" for f x e and w' :: world
    using ec[of "w'\<lparr>logger := logger w' @ [LogError e]\<rparr>"]
    by (simp add: log_failure_def log_error_to_db_def split_def split: option.splits)
  have oe: "job_queue (on_exception f x e w') = job_queue w'" for f x e and w' :: world
    by (simp add: on_exception_def lf)
  have sm: "job_queue (snd (send_message c' m w')) = job_queue w'" for c' m w'
    using ec[of w'] by (simp add: send_message_def split_def split: option.splits)
  have er: "job_queue (except_reply h c' m e w') = job_queue w'" for h c' m e w'
    using sm[of c' m "on_exception h (Some c') e w'"]
    by (simp add: except_reply_def split_def oe split: option.splits)
  have us: "job_queue (upsert_schedule c' t en w') = job_queue w'" for c' t en and w' :: world
    using ec[of w'] by (simp add: upsert_schedule_def split_def oe split: option.splits)
  show ?thesis
    by (simp add: settime_cmd_def split_def er us sm split: list.splits option.splits)
qed

text \<open>
  For a time argument \<open>t\<close> that parses as \<open>hh:mm\<close> with both fields in range, when the
  storage access of the upsert does not fail and the store reads the text as that time,
  \<open>settime\<close> leaves the daily schedule of the chat as \<open>(hh:mm, False)\<close>, whatever it
  was before: the stored schedule is not enabled afterwards, and it stays not enabled
  through every sequence of commands and timer fires that has no \<open>autoupdate on\<close> of the
  chat.
\<close>

lemma settime_stores_disabled_schedule:
  assumes "parse_hh_mm w t = Some (hh, mm)" and "0 \<le> hh" and "hh < 24" and "0 \<le> mm" and "mm < 60"
    and "next_call_ok w" and "time_in w t = Some (hh, mm)"
  shows "map_of (schedules (settime_cmd c (t # args) w)) c = Some (Some (hh, mm), False) \<and>
         \<not> daily_enabled c (settime_cmd c (t # args) w) \<and>
         (\<forall>events. (\<forall>ev\<in>set events. \<not> enables_daily c ev) \<longrightarrow>
            \<not> daily_enabled c (fold dispatch events (settime_cmd c (t # args) w)))"
proof -
  let ?w1 = "upsert_schedule c (Some t) False w"
  have s1: "schedules ?w1 = upsert_row c (Some (hh, mm), False) (schedules w)"
    using assms(6,7) by (simp add: upsert_schedule_def external_call_ok)
  have s: "schedules (settime_cmd c (t # args) w) = schedules ?w1"
    using assms(1-5) schedules_send_message[of c "TimeSet t" ?w1]
    by (simp add: settime_cmd_def split_def split: option.splits)
  have m: "map_of (schedules (settime_cmd c (t # args) w)) c = Some (Some (hh, mm), False)"
    by (simp add: s s1 map_of_upsert_row_same)
  have d: "\<not> daily_enabled c (settime_cmd c (t # args) w)"
    by (auto simp: daily_enabled_def s s1 set_upsert_row)
  from m d daily_stays_disabled[OF d] show ?thesis by blast
qed

lemma settime_after_enabled_example:
  "schedules (settime_cmd 1 [''10:30''] (empty_world\<lparr>schedules := [(1, Some (9, 0), True)]\<rparr>)) =
     [(1, Some (10, 30), False)] \<and>
   \<not> daily_enabled 1
       (fold dispatch [AutoupdateCmd 1 [''off''], SetintervalCmd 1 [''5'']]
          (settime_cmd 1 [''10:30''] (empty_world\<lparr>schedules := [(1, Some (9, 0), True)]\<rparr>)))"
proof -
  let ?w = "empty_world\<lparr>schedules := [(1, Some (9, 0), True)]\<rparr>"
  have p: "parse_hh_mm ?w ''10:30'' = Some (10, 30)"
    by code_simp
  have ti: "time_in ?w ''10:30'' = Some (10, 30)"
    by code_simp
  have ok: "next_call_ok ?w"
    by (simp add: next_call_ok_def empty_world_def)
  have r: "(0::int) \<le> 10" "(10::int) < 24" "(0::int) \<le> 30" "(30::int) < 60"
    by simp_all
  have ev: "\<forall>ev\<in>set [AutoupdateCmd 1 [''off''], SetintervalCmd 1 [''5'']]. \<not> enables_daily 1 ev"
    by (simp add: enables_daily_def lower_def lower_char_def)
  have s: "schedules (settime_cmd 1 [''10:30''] ?w) = [(1, Some (10, 30), False)]"
    by code_simp
  have "\<not> daily_enabled 1
      (fold dispatch [AutoupdateCmd 1 [''off''], SetintervalCmd 1 [''5'']]
         (settime_cmd 1 [''10:30''] ?w))"
    using settime_stores_disabled_schedule[OF p r ok ti, of 1 "[]"] ev
    by blast
  with s show ?thesis
    by simp
qed

section \<open>Setting the daily time: the claim\<close>

text \<open>
  Claim C10.  The claim says that setting the daily time leaves the daily notifications
  disabled until the next \<open>autoupdate on\<close>, even if the schedule was enabled before.
  \<open>settime_cmd\<close> writes the row with \<open>enabled\<close> false, as the claim says, but it leaves
  the job queue as it is (\<open>autoupdate_cmd\<close> with \<open>off\<close>, which writes the same flag,
  removes the jobs named \<open>daily_<chat>\<close>): after \<open>subscribe BTC\<close>, \<open>settime 09:00\<close>, \<open>autoupdate on\<close> and
  \<open>settime 10:00\<close>, with no failure anywhere, the store holds \<open>(10:00, False)\<close>, the
  queue still holds the daily timer at \<open>09:00\<close>, and the fire of that timer sends the
  report to the chat.
\<close>

theorem settime_leaves_daily_timer_firing:
  "schedules retimed_chat_world = [(1, Some (10, 0), False)] \<and>
   job_queue retimed_chat_world =
     Some [\<lparr>job_name = ''daily_1'', job_chat_id = 1, job_trigger = Daily (9, 0)\<rparr>] \<and>
   outbox (dispatch (Fire 0) retimed_chat_world) =
     outbox retimed_chat_world @
     [(1, RatesText (report_text ''2025-01-01 09:00'' [up_mark @ ''BTC +10.00%  $110.00'']))]"
  by code_simp

end
